theory Spec2Isabelle
  imports Complex_Main "HOL-Library.Sublist" "HOL-Library.Log_Nat"
begin

section \<open>Page content extraction of the summarizer extension\<close>

text \<open>
  The repository holds two versions of the browser function \<^verbatim>\<open>extractPageContent\<close>.
  The article extractor (the script that follows the Gmail notes in
  \<^verbatim>\<open>src/s4-mcp/gmail_mcp.md\<close>) detects listing pages, strips navigation, locates the
  headline, scores content containers, falls back to paragraphs, text blocks and the body
  text, and cleans the text up in six steps. It does all of this on a copy of the body
  that is not part of the document, and it tests the visibility of the elements of that
  copy. The plain version (popup script and content
  script, \<^verbatim>\<open>src/unnamed/part_000\<close> and \<^verbatim>\<open>src/unnamed/part_002\<close>) returns the first
  content container, falls back to paragraphs and the body text, and cleans up in three
  steps. Both are embedded here; the plain one carries the prefix \<open>popup_\<close>.

  JavaScript strings are modelled as \<^typ>\<open>string\<close>: a list of code units below 256, so
  \<open>length\<close> is the JavaScript \<^verbatim>\<open>length\<close> of such a string. A document is a tree of
  elements and text nodes. Exceptions are values: a function that can raise returns
  \<open>error + 'a\<close>.
\<close>

subsection \<open>Numbers\<close>

text \<open>
  JavaScript numbers are IEEE 754 doubles. The numbers of the scripts are lengths of
  strings, one quotient and one product of them. A double is modelled by the rational it
  denotes; a length is below \<open>2\<^sup>5\<^sup>3\<close> and is a double as it stands. Division and
  multiplication give the exact result rounded to the nearest number with a significand of
  53 bits, and to the one with the even significand when two are equally near. The range of
  the exponent is not modelled: no quotient or product of two lengths leaves it.
\<close>

definition pow2 :: "int \<Rightarrow> rat" where
  "pow2 k = (if 0 \<le> k then 2 ^ nat k else 1 / 2 ^ nat (- k))"

text \<open>The exponent \<open>e\<close> of a positive number \<open>q\<close>: \<open>2\<^sup>e \<le> q < 2\<^sup>e\<^sup>+\<^sup>1\<close>.\<close>

definition binade :: "rat \<Rightarrow> int" where
  "binade q =
     (let k = bitlen (fst (quotient_of q)) - bitlen (snd (quotient_of q))
      in if pow2 k \<le> q then k else k - 1)"

definition roundHalfEven :: "rat \<Rightarrow> int" where
  "roundHalfEven m =
     (let f = \<lfloor>m\<rfloor>; d = m - of_int f
      in if d < 1 / 2 then f else if 1 / 2 < d then f + 1 else if even f then f else f + 1)"

definition toDouble :: "rat \<Rightarrow> rat" where
  "toDouble q =
     (if q = 0 then 0
      else let e = binade \<bar>q\<bar>
           in sgn q * of_int (roundHalfEven (\<bar>q\<bar> * pow2 (52 - e))) * pow2 (e - 52))"

subsection \<open>Strings\<close>

text \<open>The white space of regular expressions, which \<^verbatim>\<open>trim()\<close> strips too: tab, line feed,
  vertical tab, form feed, carriage return, space and no-break space.\<close>

definition isSpace :: "char \<Rightarrow> bool" where
  "isSpace c = (c \<in> set [CHR 0x09, CHR 0x0A, CHR 0x0B, CHR 0x0C, CHR 0x0D, CHR 0x20, CHR 0xA0])"

definition trim :: "string \<Rightarrow> string" where
  "trim s = rev (dropWhile isSpace (rev (dropWhile isSpace s)))"

text \<open>\<^verbatim>\<open>s.replace(/X+/g, r)\<close> for a character class \<open>X\<close>: every maximal run of characters
  of the class is replaced by \<open>r\<close>.\<close>

function replaceRuns :: "(char \<Rightarrow> bool) \<Rightarrow> string \<Rightarrow> string \<Rightarrow> string" where
  "replaceRuns P r [] = []"
| "replaceRuns P r (c # cs) =
     (if P c then r @ replaceRuns P r (dropWhile P cs) else c # replaceRuns P r cs)"
  by pat_completeness auto
termination
  by (relation "measure (\<lambda>(P, r, s). length s)")
     (auto simp: length_dropWhile_le less_Suc_eq_le)

text \<open>\<^verbatim>\<open>xs.join(sep)\<close>.\<close>

fun join :: "string \<Rightarrow> string list \<Rightarrow> string" where
  "join sep [] = []"
| "join sep [x] = x"
| "join sep (x # y # ys) = x @ sep @ join sep (y # ys)"

text \<open>Case folding of the regular expression flag \<^verbatim>\<open>i\<close> on the letters A to Z.\<close>

definition lowerChar :: "char \<Rightarrow> char" where
  "lowerChar c =
     (case map_of (zip ''ABCDEFGHIJKLMNOPQRSTUVWXYZ'' ''abcdefghijklmnopqrstuvwxyz'') c of
        None \<Rightarrow> c
      | Some d \<Rightarrow> d)"

definition adToken :: string where
  "adToken = ''advertisement''"

definition matchesAd :: "string \<Rightarrow> bool" where
  "matchesAd s = (map lowerChar (take 13 s) = adToken)"

text \<open>\<^verbatim>\<open>s.replace(/Advertisement/gi, '')\<close>: one scan from the left; a match is dropped and
  the scan goes on behind it.\<close>

fun removeAds :: "string \<Rightarrow> string" where
  "removeAds [] = []"
| "removeAds (c # cs) =
     (if matchesAd (c # cs) then removeAds (drop 12 cs) else c # removeAds cs)"

subsection \<open>The document tree\<close>

text \<open>
  An element carries its lower-case tag name, its attributes in source order, the
  resolved \<^verbatim>\<open>href\<close> property and the layout values the browser reports for it. The
  tree consists of elements and text nodes.
\<close>

record element =
  tag :: string
  attributes :: "(string \<times> string) list"
  href :: string
  offsetWidth :: nat
  offsetHeight :: nat
  clientRects :: nat

datatype node = Text string | Element element "node list"

fun textContent :: "node \<Rightarrow> string" where
  "textContent (Text s) = s"
| "textContent (Element e kids) = concat (map textContent kids)"

fun isElement :: "node \<Rightarrow> bool" where
  "isElement (Text s) = False"
| "isElement (Element e kids) = True"

text \<open>\<^verbatim>\<open>element.children\<close>: the child elements, without the text nodes.\<close>

fun children :: "node \<Rightarrow> node list" where
  "children (Text s) = []"
| "children (Element e kids) = filter isElement kids"

text \<open>Serialisation of markup, as \<^verbatim>\<open>innerHTML\<close> reports it: text is escaped, an
  attribute is written \<^verbatim>\<open> name="value"\<close>, and the elements without content have no end
  tag.\<close>

fun escapeText :: "string \<Rightarrow> string" where
  "escapeText [] = []"
| "escapeText (c # cs) =
     (if c = CHR ''&'' then ''&amp;''
      else if c = CHR ''<'' then ''&lt;''
      else if c = CHR ''>'' then ''&gt;''
      else if c = CHR 0xA0 then ''&nbsp;''
      else [c]) @ escapeText cs"

fun escapeAttr :: "string \<Rightarrow> string" where
  "escapeAttr [] = []"
| "escapeAttr (c # cs) =
     (if c = CHR ''&'' then ''&amp;''
      else if c = CHR 0x22 then ''&quot;''
      else if c = CHR 0xA0 then ''&nbsp;''
      else [c]) @ escapeAttr cs"

definition attrHTML :: "string \<times> string \<Rightarrow> string" where
  "attrHTML a = '' '' @ fst a @ [CHR ''='', CHR 0x22] @ escapeAttr (snd a) @ [CHR 0x22]"

definition voidElements :: "string list" where
  "voidElements = [''area'', ''base'', ''br'', ''col'', ''embed'', ''hr'', ''img'', ''input'',
     ''link'', ''meta'', ''source'', ''track'', ''wbr'']"

fun outerHTML :: "node \<Rightarrow> string" where
  "outerHTML (Text s) = escapeText s"
| "outerHTML (Element e kids) =
     ''<'' @ tag e @ concat (map attrHTML (attributes e)) @ ''>''
     @ concat (map outerHTML kids)
     @ (if tag e \<in> set voidElements then [] else ''</'' @ tag e @ ''>'')"

fun innerHTML :: "node \<Rightarrow> string" where
  "innerHTML (Text s) = []"
| "innerHTML (Element e kids) = concat (map outerHTML kids)"

subsection \<open>Selectors\<close>

text \<open>The selectors of the scripts: a tag, a class, an id, an attribute with a value, a
  tag with a class, and \<^verbatim>\<open>A B\<close> (an element matching \<open>B\<close> below an element matching
  \<open>A\<close>). A selector list is a list of these.\<close>

datatype compound =
  Tag string | Class string | Id string | AttrEq string string | TagClass string string

datatype selector = Is compound | Inside compound compound

definition isAsciiSpace :: "char \<Rightarrow> bool" where
  "isAsciiSpace c = (c \<in> set [CHR 0x09, CHR 0x0A, CHR 0x0C, CHR 0x0D, CHR 0x20])"

fun tokens :: "string \<Rightarrow> string \<Rightarrow> string list" where
  "tokens cur [] = (if cur = [] then [] else [cur])"
| "tokens cur (c # cs) =
     (if isAsciiSpace c then (if cur = [] then tokens [] cs else cur # tokens [] cs)
      else tokens (cur @ [c]) cs)"

definition classList :: "element \<Rightarrow> string list" where
  "classList e = (case map_of (attributes e) ''class'' of None \<Rightarrow> [] | Some v \<Rightarrow> tokens [] v)"

fun matchesCompound :: "compound \<Rightarrow> element \<Rightarrow> bool" where
  "matchesCompound (Tag t) e = (tag e = t)"
| "matchesCompound (Class c) e = (c \<in> set (classList e))"
| "matchesCompound (Id i) e = (map_of (attributes e) ''id'' = Some i)"
| "matchesCompound (AttrEq n v) e = (map_of (attributes e) n = Some v)"
| "matchesCompound (TagClass t c) e = (tag e = t \<and> c \<in> set (classList e))"

fun matches :: "element list \<Rightarrow> selector \<Rightarrow> element \<Rightarrow> bool" where
  "matches anc (Is c) e = matchesCompound c e"
| "matches anc (Inside a c) e = (matchesCompound c e \<and> list_ex (matchesCompound a) anc)"

text \<open>The elements of a subtree that match one of the selectors, in document order;
  \<open>anc\<close> are the elements above the subtree.\<close>

fun select :: "selector list \<Rightarrow> element list \<Rightarrow> node \<Rightarrow> node list" where
  "select sels anc (Text s) = []"
| "select sels anc (Element e kids) =
     (if list_ex (\<lambda>s. matches anc s e) sels then [Element e kids] else [])
     @ concat (map (select sels (e # anc)) kids)"

text \<open>\<^verbatim>\<open>scope.querySelectorAll(sels)\<close> on an element: its descendants, not the element
  itself; \<^verbatim>\<open>scope.querySelector(sels)\<close> is the first of them or \<^verbatim>\<open>null\<close>.\<close>

fun querySelectorAll :: "node \<Rightarrow> selector list \<Rightarrow> node list" where
  "querySelectorAll (Text s) sels = []"
| "querySelectorAll (Element e kids) sels = concat (map (select sels [e]) kids)"

definition querySelector :: "node \<Rightarrow> selector list \<Rightarrow> node option" where
  "querySelector scope sels =
     (case querySelectorAll scope sels of [] \<Rightarrow> None | n # ns \<Rightarrow> Some n)"

text \<open>The window: the address of the page, the root element of its document, and the
  binding of the global name \<^verbatim>\<open>articleTitle\<close>, if the page has one.\<close>

record window =
  location_href :: string
  documentElement :: node
  global_articleTitle :: "string option"

definition document_querySelectorAll :: "window \<Rightarrow> selector list \<Rightarrow> node list" where
  "document_querySelectorAll w sels = select sels [] (documentElement w)"

definition document_querySelector :: "window \<Rightarrow> selector list \<Rightarrow> node option" where
  "document_querySelector w sels =
     (case document_querySelectorAll w sels of [] \<Rightarrow> None | n # ns \<Rightarrow> Some n)"

fun isBody :: "node \<Rightarrow> bool" where
  "isBody (Text s) = False"
| "isBody (Element e kids) = (tag e = ''body'' \<or> tag e = ''frameset'')"

text \<open>\<^verbatim>\<open>document.body\<close>: the first \<^verbatim>\<open>body\<close> or \<^verbatim>\<open>frameset\<close> child of the \<^verbatim>\<open>html\<close>
  root, \<^verbatim>\<open>null\<close> when there is none.\<close>

fun document_body :: "window \<Rightarrow> node option" where
  "document_body w =
     (case documentElement w of
        Text s \<Rightarrow> None
      | Element e kids \<Rightarrow> if tag e = ''html'' then find isBody kids else None)"

subsection \<open>The article extractor\<close>

datatype error = TypeError | ReferenceError

text \<open>The two objects \<^verbatim>\<open>extractPageContent\<close> returns: \<^verbatim>\<open>type: 'homepage'\<close> with a
  description and, when a featured article was found, its title and link; and
  \<^verbatim>\<open>type: 'article'\<close> with title and content.\<close>

datatype result =
  Homepage "string option" "string option" string
| Article string string

fun isVisible :: "node \<Rightarrow> bool" where
  "isVisible (Text s) = False"
| "isVisible (Element e kids) = (0 < offsetWidth e \<or> 0 < offsetHeight e \<or> 0 < clientRects e)"

definition getTextToHtmlRatio :: "node \<Rightarrow> rat" where
  "getTextToHtmlRatio el =
     (let text = trim (textContent el); html = trim (innerHTML el)
      in if length html > 0 then toDouble (of_nat (length text) / of_nat (length html)) else 0)"

definition articleLinkSelectors :: "selector list" where
  "articleLinkSelectors =
     [Inside (Tag ''a'') (Tag ''h2''), Inside (Tag ''h2'') (Tag ''a''),
      Inside (Tag ''h3'') (Tag ''a''), Inside (Tag ''a'') (Tag ''h3''),
      Inside (Class ''headline'') (Tag ''a''), Inside (Tag ''a'') (Class ''headline'')]"

definition isHomePage :: "window \<Rightarrow> bool" where
  "isHomePage w =
     (let url = location_href w
      in if suffix ''/'' url \<or> suffix ''.com'' url \<or> suffix ''.org'' url \<or> suffix ''.net'' url
         then True
         else if length (document_querySelectorAll w articleLinkSelectors) > 5 then True
         else False)"

definition featuredArticleSelectors :: "selector list" where
  "featuredArticleSelectors =
     [Is (Class ''featured-article''), Is (Class ''main-article''), Is (Class ''top-story''),
      Is (Class ''lead-story''), Is (Class ''headline-story''), Is (Class ''primary-article''),
      Is (AttrEq ''data-featured'' ''true'')]"

fun hrefOf :: "node \<Rightarrow> string" where
  "hrefOf (Text s) = []"
| "hrefOf (Element e kids) = href e"

definition featuredDescription :: string where
  "featuredDescription =
     ''This appears to be a homepage or article listing page. The featured article is: ''"

definition listingDescription :: string where
  "listingDescription =
     ''This appears to be a homepage or article listing page with multiple articles. Please navigate to a specific article to get a summary.''"

text \<open>The loop over the featured-article selectors: the first match of a selector is
  taken if it is visible and holds both a title element and a link.\<close>

fun featuredArticle :: "window \<Rightarrow> selector list \<Rightarrow> result option" where
  "featuredArticle w [] = None"
| "featuredArticle w (sel # sels) =
     (case document_querySelector w [sel] of
        None \<Rightarrow> featuredArticle w sels
      | Some featuredElement \<Rightarrow>
          if isVisible featuredElement then
            (case querySelector featuredElement
                    [Is (Tag ''h1''), Is (Tag ''h2''), Is (Class ''title''), Is (Class ''headline'')] of
               None \<Rightarrow> featuredArticle w sels
             | Some titleElement \<Rightarrow>
                 (case querySelector featuredElement [Is (Tag ''a'')] of
                    None \<Rightarrow> featuredArticle w sels
                  | Some linkElement \<Rightarrow>
                      Some (Homepage (Some (trim (textContent titleElement)))
                                     (Some (hrefOf linkElement))
                                     (featuredDescription @ trim (textContent titleElement)))))
          else featuredArticle w sels)"

definition nonContentSelectors :: "selector list" where
  "nonContentSelectors =
     [Is (Tag ''header''), Is (Tag ''footer''), Is (Tag ''nav''), Is (Class ''navigation''),
      Is (Class ''menu''), Is (Class ''sidebar''), Is (Class ''comments''),
      Is (Class ''related-articles''), Is (Class ''recommended''), Is (Class ''social-share''),
      Is (Class ''advertisement''), Is (Class ''nav''), Is (Id ''header''), Is (Id ''footer''),
      Is (Id ''nav''), Is (Class ''header''), Is (Class ''footer'')]"

text \<open>
  \<^verbatim>\<open>cloneNode(true)\<close> is a deep copy that is not part of the document, and the script
  never inserts it. An element outside the document is not rendered: it has no layout box,
  so its \<^verbatim>\<open>offsetWidth\<close> and \<^verbatim>\<open>offsetHeight\<close> are 0 and \<^verbatim>\<open>getClientRects()\<close> is
  empty, whatever the element it was copied from reports.
\<close>

fun cloneNode :: "node \<Rightarrow> node" where
  "cloneNode (Text s) = Text s"
| "cloneNode (Element e kids) =
     Element (e\<lparr>offsetWidth := 0, offsetHeight := 0, clientRects := 0\<rparr>) (map cloneNode kids)"

fun selected :: "selector \<Rightarrow> element list \<Rightarrow> node \<Rightarrow> bool" where
  "selected sel anc (Text s) = False"
| "selected sel anc (Element e kids) = matches anc sel e"

text \<open>Removing every element below the given one that matches the selector, with all
  that is below it.\<close>

fun removeMatching :: "selector \<Rightarrow> element list \<Rightarrow> node \<Rightarrow> node" where
  "removeMatching sel anc (Text s) = Text s"
| "removeMatching sel anc (Element e kids) =
     Element e (map (removeMatching sel (e # anc)) (filter (\<lambda>k. \<not> selected sel (e # anc) k) kids))"

definition removeNonContent :: "node \<Rightarrow> node" where
  "removeNonContent bodyClone = foldl (\<lambda>t sel. removeMatching sel [] t) bodyClone nonContentSelectors"

definition titleSelectors :: "selector list" where
  "titleSelectors =
     [Is (TagClass ''h1'' ''article-title''), Is (TagClass ''h1'' ''entry-title''),
      Is (TagClass ''h1'' ''headline''), Is (TagClass ''h1'' ''title''),
      Is (Class ''article-headline''), Is (Class ''article-title''), Is (Class ''story-title''),
      Is (Class ''entry-title''), Is (AttrEq ''itemprop'' ''headline'')]"

text \<open>The loop that sets \<^verbatim>\<open>articleTitle\<close>: it stops at the first selector whose first
  match is visible.\<close>

fun findTitle :: "node \<Rightarrow> selector list \<Rightarrow> string" where
  "findTitle bodyClone [] = []"
| "findTitle bodyClone (sel # sels) =
     (case querySelector bodyClone [sel] of
        None \<Rightarrow> findTitle bodyClone sels
      | Some titleElement \<Rightarrow>
          if isVisible titleElement then trim (textContent titleElement)
          else findTitle bodyClone sels)"

definition contentSelectors :: "selector list" where
  "contentSelectors =
     [Is (Tag ''article''), Is (Class ''article-body''), Is (Class ''story-content''),
      Is (Class ''entry-content''), Is (Class ''post-content''),
      Is (AttrEq ''itemprop'' ''articleBody''), Is (Class ''story__content''),
      Is (Class ''article__content''), Is (Class ''content-body''),
      Is (Class ''story-article''), Is (Class ''article-text''), Is (Class ''news-content''),
      Is (Class ''main-content''), Is (Id ''articleBody''), Is (Class ''story-body__inner''),
      Is (Class ''article-container''), Is (Class ''article__body''), Is (Class ''story-body''),
      Is (Class ''Normal''), Is (Class ''article_content''), Is (Id ''content-body''),
      Is (Class ''main-content''), Is (Class ''article-txt'')]"

definition textLength :: "node \<Rightarrow> nat" where
  "textLength el = length (trim (textContent el))"

text \<open>\<^verbatim>\<open>textLength * ratio\<close>, the score of both loops.\<close>

definition score :: "node \<Rightarrow> rat" where
  "score el = toDouble (of_nat (textLength el) * getTextToHtmlRatio el)"

text \<open>
  The inner loop of the scoring. The state is \<^verbatim>\<open>bestElement\<close> and \<^verbatim>\<open>bestScore\<close>.
  \<^verbatim>\<open>score\<close> is declared \<^verbatim>\<open>const\<close>, so the statement \<^verbatim>\<open>score *= 1.5\<close> raises a
  \<^verbatim>\<open>TypeError\<close> when it is reached.
\<close>

fun scoreElements :: "string \<Rightarrow> node list \<Rightarrow> node option \<times> rat \<Rightarrow> error + node option \<times> rat" where
  "scoreElements articleTitle [] st = Inr st"
| "scoreElements articleTitle (el # els) (bestElement, bestScore) =
     (if isVisible el \<and> length (trim (textContent el)) > 200 then
        if articleTitle \<noteq> [] \<and> sublist articleTitle (textContent el) then Inl TypeError
        else if score el > bestScore then scoreElements articleTitle els (Some el, score el)
        else scoreElements articleTitle els (bestElement, bestScore)
      else scoreElements articleTitle els (bestElement, bestScore))"

fun scoreSelectors ::
  "string \<Rightarrow> node \<Rightarrow> selector list \<Rightarrow> node option \<times> rat \<Rightarrow> error + node option \<times> rat" where
  "scoreSelectors articleTitle bodyClone [] st = Inr st"
| "scoreSelectors articleTitle bodyClone (sel # sels) st =
     (case scoreElements articleTitle (querySelectorAll bodyClone [sel]) st of
        Inl err \<Rightarrow> Inl err
      | Inr st' \<Rightarrow> scoreSelectors articleTitle bodyClone sels st')"

definition paragraphs :: "node \<Rightarrow> node list" where
  "paragraphs bodyClone =
     filter (\<lambda>p. isVisible p \<and> length (trim (textContent p)) > 40)
            (querySelectorAll bodyClone [Is (Tag ''p'')])"

text \<open>The loop over the text blocks; the state is \<^verbatim>\<open>bestTextBlock\<close> and
  \<^verbatim>\<open>bestBlockScore\<close>.\<close>

fun scanBlocks :: "node list \<Rightarrow> string \<times> rat \<Rightarrow> string \<times> rat" where
  "scanBlocks [] st = st"
| "scanBlocks (el # els) (bestTextBlock, bestBlockScore) =
     (if isVisible el \<and> length (children el) > 2 then
        if length (trim (textContent el)) > 500 then
          if score el > bestBlockScore then scanBlocks els (trim (textContent el), score el)
          else scanBlocks els (bestTextBlock, bestBlockScore)
        else scanBlocks els (bestTextBlock, bestBlockScore)
      else scanBlocks els (bestTextBlock, bestBlockScore))"

definition textBlockSelectors :: "selector list" where
  "textBlockSelectors = [Is (Tag ''div''), Is (Tag ''section''), Is (Tag ''main'')]"

text \<open>What \<^verbatim>\<open>getMainContent\<close> does once no element was chosen by the scoring.\<close>

definition fallback :: "node \<Rightarrow> string" where
  "fallback bodyClone =
     (if length (paragraphs bodyClone) > 3
      then join [CHR 0x0A, CHR 0x0A] (map textContent (paragraphs bodyClone))
      else let bestTextBlock = fst (scanBlocks (querySelectorAll bodyClone textBlockSelectors) ([], 0))
           in if bestTextBlock \<noteq> [] then bestTextBlock else textContent bodyClone)"

text \<open>\<^verbatim>\<open>getMainContent\<close> proper, on the stripped copy of the body and with the title
  found there.\<close>

definition mainContent :: "string \<Rightarrow> node \<Rightarrow> error + string" where
  "mainContent articleTitle bodyClone =
     (case scoreSelectors articleTitle bodyClone contentSelectors (None, 0) of
        Inl err \<Rightarrow> Inl err
      | Inr (bestElement, bestScore) \<Rightarrow>
          (case bestElement of
             Some el \<Rightarrow> Inr (textContent el)
           | None \<Rightarrow> Inr (fallback bodyClone)))"

definition getMainContent :: "window \<Rightarrow> error + string" where
  "getMainContent w =
     (case document_body w of
        None \<Rightarrow> Inl TypeError
      | Some b \<Rightarrow>
          let bodyClone = removeNonContent (cloneNode b);
              articleTitle = findTitle bodyClone titleSelectors
          in mainContent articleTitle bodyClone)"

text \<open>The clean-up of the content: five replacements in the order of the script, then \<^verbatim>\<open>trim\<close>.\<close>

definition cleanUp :: "string \<Rightarrow> string" where
  "cleanUp content =
     trim (removeAds
       (replaceRuns (\<lambda>c. c = CHR 0x0D) []
         (replaceRuns (\<lambda>c. c = CHR 0x09) '' ''
           (replaceRuns (\<lambda>c. c = CHR 0x0A) [CHR 0x0A]
             (replaceRuns isSpace '' '' content)))))"

text \<open>
  \<^verbatim>\<open>extractPageContent\<close>. The name \<^verbatim>\<open>articleTitle\<close> in its last statement is not
  the variable of \<^verbatim>\<open>getMainContent\<close>, which is local to that function: it is looked up
  in the global scope, and the statement raises a \<^verbatim>\<open>ReferenceError\<close> when the page has
  no such global.
\<close>

definition extractPageContent :: "window \<Rightarrow> error + result" where
  "extractPageContent w =
     (if isHomePage w then
        (case featuredArticle w featuredArticleSelectors of
           Some r \<Rightarrow> Inr r
         | None \<Rightarrow> Inr (Homepage None None listingDescription))
      else
        (case getMainContent w of
           Inl err \<Rightarrow> Inl err
         | Inr content \<Rightarrow>
             (case global_articleTitle w of
                None \<Rightarrow> Inl ReferenceError
              | Some t \<Rightarrow>
                  Inr (Article (if t \<noteq> [] then t else ''Unknown Article'') (cleanUp content)))))"

subsection \<open>The plain extractor of the popup and content scripts\<close>

definition popup_contentSelectors :: "selector list" where
  "popup_contentSelectors =
     [Is (Tag ''article''), Is (Tag ''main''), Is (Class ''content''), Is (Id ''content''),
      Is (Class ''post''), Is (Class ''article''), Is (Class ''post-content''),
      Is (AttrEq ''role'' ''main''), Is (Class ''main-content''), Is (Id ''main-content'')]"

fun popup_firstElement :: "node list \<Rightarrow> string option" where
  "popup_firstElement [] = None"
| "popup_firstElement (el # els) =
     (if isVisible el \<and> length (textContent el) > 200 then Some (textContent el)
      else popup_firstElement els)"

fun popup_firstSelector :: "window \<Rightarrow> selector list \<Rightarrow> string option" where
  "popup_firstSelector w [] = None"
| "popup_firstSelector w (sel # sels) =
     (case popup_firstElement (document_querySelectorAll w [sel]) of
        Some t \<Rightarrow> Some t
      | None \<Rightarrow> popup_firstSelector w sels)"

definition popup_paragraphs :: "window \<Rightarrow> node list" where
  "popup_paragraphs w =
     filter (\<lambda>p. isVisible p \<and> length (trim (textContent p)) > 50)
            (document_querySelectorAll w [Is (Tag ''p'')])"

definition popup_getMainContent :: "window \<Rightarrow> error + string" where
  "popup_getMainContent w =
     (case popup_firstSelector w popup_contentSelectors of
        Some t \<Rightarrow> Inr t
      | None \<Rightarrow>
          if length (popup_paragraphs w) > 0
          then Inr (join [CHR 0x0A, CHR 0x0A] (map textContent (popup_paragraphs w)))
          else (case document_body w of
                  None \<Rightarrow> Inl TypeError
                | Some b \<Rightarrow> Inr (textContent b)))"

definition popup_cleanUp :: "string \<Rightarrow> string" where
  "popup_cleanUp content =
     trim (replaceRuns (\<lambda>c. c = CHR 0x0A) [CHR 0x0A] (replaceRuns isSpace '' '' content))"

definition popup_extractPageContent :: "window \<Rightarrow> error + string" where
  "popup_extractPageContent w =
     (case popup_getMainContent w of
        Inl err \<Rightarrow> Inl err
      | Inr content \<Rightarrow> Inr (popup_cleanUp content))"

subsection \<open>Notions used to state the properties\<close>

text \<open>The elements the scoring visits, in the order of its two loops, and the test an
  element has to pass to be scored.\<close>

definition candidates :: "node \<Rightarrow> node list" where
  "candidates bodyClone = concat (map (\<lambda>sel. querySelectorAll bodyClone [sel]) contentSelectors)"

definition accepted :: "node \<Rightarrow> bool" where
  "accepted el = (isVisible el \<and> 200 < textLength el)"

text \<open>The running maximum both loops keep: a later element replaces the best one only
  with a strictly higher score.\<close>

fun keepBest :: "('a \<Rightarrow> rat) \<Rightarrow> 'a list \<Rightarrow> 'a option \<times> rat \<Rightarrow> 'a option \<times> rat" where
  "keepBest f [] st = st"
| "keepBest f (x # xs) (best, bestScore) =
     (if f x > bestScore then keepBest f xs (Some x, f x) else keepBest f xs (best, bestScore))"

text \<open>Position \<open>i\<close> holds the first element of highest value.\<close>

definition firstBest :: "('a \<Rightarrow> rat) \<Rightarrow> 'a list \<Rightarrow> nat \<Rightarrow> bool" where
  "firstBest f xs i =
     (i < length xs \<and> list_all (\<lambda>y. f y \<le> f (xs ! i)) xs \<and> list_all (\<lambda>y. f y < f (xs ! i)) (take i xs))"

text \<open>A string in which every white-space character is a space that is followed by
  something else than white space.\<close>

fun singleSpaced :: "string \<Rightarrow> bool" where
  "singleSpaced [] = True"
| "singleSpaced [c] = (if isSpace c then c = CHR '' '' else True)"
| "singleSpaced (c # d # cs) =
     ((if isSpace c then c = CHR '' '' \<and> \<not> isSpace d else True) \<and> singleSpaced (d # cs))"

text \<open>A tree without any layout: none of its elements is rendered.\<close>

fun unrendered :: "node \<Rightarrow> bool" where
  "unrendered (Text s) = True"
| "unrendered (Element e kids) =
     (offsetWidth e = 0 \<and> offsetHeight e = 0 \<and> clientRects e = 0 \<and> list_all unrendered kids)"

text \<open>The first rule of the classifier as the specification words it, on the path of the
  address: what follows the host, up to the query string or the fragment. The path is
  root-like when it is empty (a bare domain) or ends with a slash.\<close>

fun afterScheme :: "string \<Rightarrow> string" where
  "afterScheme (a # b # c # cs) = (if [a, b, c] = ''://'' then cs else afterScheme (b # c # cs))"
| "afterScheme cs = []"

definition spec_urlPath :: "string \<Rightarrow> string" where
  "spec_urlPath url =
     takeWhile (\<lambda>c. c \<notin> set ''?#'') (dropWhile (\<lambda>c. c \<notin> set ''/?#'') (afterScheme url))"

definition spec_rootLike :: "string \<Rightarrow> bool" where
  "spec_rootLike url = (spec_urlPath url = [] \<or> suffix ''/'' (spec_urlPath url))"

subsection \<open>Example pages\<close>

definition shown :: "string \<Rightarrow> (string \<times> string) list \<Rightarrow> element" where
  "shown t as = \<lparr>tag = t, attributes = as, href = [],
                 offsetWidth = 100, offsetHeight = 20, clientRects = 1\<rparr>"

definition unshown :: "string \<Rightarrow> (string \<times> string) list \<Rightarrow> element" where
  "unshown t as = \<lparr>tag = t, attributes = as, href = [],
                   offsetWidth = 0, offsetHeight = 0, clientRects = 0\<rparr>"

definition page :: "string \<Rightarrow> string option \<Rightarrow> node list \<Rightarrow> window" where
  "page url g kids =
     \<lparr>location_href = url,
      documentElement = Element (shown ''html'' [])
        [Element (unshown ''head'' []) [], Element (shown ''body'' []) kids],
      global_articleTitle = g\<rparr>"

definition filler :: "nat \<Rightarrow> string" where
  "filler n = replicate n CHR ''x''"

text \<open>Two content containers of different tiers, both rendered, the later one with the
  higher score. Both selectors are in the list of the plain extractor too, in the same
  order.\<close>

definition tierArticle :: node where
  "tierArticle = Element (shown ''article'' []) [Text (filler 201)]"

definition tierStory :: node where
  "tierStory = Element (shown ''div'' [(''class'', ''post-content'')]) [Text (''Budget'' @ filler 400)]"

definition tierBody :: node where
  "tierBody = Element (shown ''body'' [])
     [tierArticle, Element (shown ''h1'' [(''class'', ''headline'')]) [Text ''Budget''], tierStory]"

definition tierPage :: window where
  "tierPage = page ''https://example.com/news/story'' None
     [tierArticle, Element (shown ''h1'' [(''class'', ''headline'')]) [Text ''Budget''], tierStory]"

text \<open>An article of 300 characters, the headline, and a container of 256 characters that
  holds the words of the headline: the container has the lower score, and one and a half
  times its score is more than the score of the article.\<close>

definition boostArticle :: node where
  "boostArticle = Element (shown ''article'' []) [Text (filler 300)]"

definition boostHeadline :: node where
  "boostHeadline = Element (shown ''h1'' [(''class'', ''headline'')]) [Text ''Budget'']"

definition boostStory :: node where
  "boostStory = Element (shown ''div'' [(''class'', ''post-content'')]) [Text (''Budget'' @ filler 250)]"

definition boostBody :: node where
  "boostBody = Element (shown ''body'' []) [boostArticle, boostHeadline, boostStory]"

definition boostPage :: window where
  "boostPage = page ''https://example.com/news/story'' None [boostArticle, boostHeadline, boostStory]"

text \<open>A page without any text.\<close>

definition emptyPage :: window where
  "emptyPage = page ''https://example.com/empty'' None []"

text \<open>Five rendered paragraphs of 50 characters and no content container.\<close>

definition paragraphBody :: node where
  "paragraphBody = Element (shown ''body'' [])
     (replicate 5 (Element (shown ''p'' []) [Text (filler 50)]))"

definition paragraphPage :: window where
  "paragraphPage = page ''https://example.com/news/story'' None
     (replicate 5 (Element (shown ''p'' []) [Text (filler 50)]))"

text \<open>A page of six linked headings, without a body element.\<close>

definition listingPage :: window where
  "listingPage =
     \<lparr>location_href = ''https://example.com/news/index.html'',
      documentElement = Element (shown ''html'' [])
        (replicate 6 (Element (shown ''h2'' []) [Element (shown ''a'' []) [Text ''Story'']])),
      global_articleTitle = None\<rparr>"

text \<open>A body with one article of \<open>n\<close> characters.\<close>

definition floorArticle :: "nat \<Rightarrow> node" where
  "floorArticle n = Element (shown ''article'' []) [Text (filler n)]"

definition floorBody :: "nat \<Rightarrow> node" where
  "floorBody n = Element (shown ''body'' []) [floorArticle n, Text ''tail'']"

definition floorPage :: "nat \<Rightarrow> window" where
  "floorPage n = page ''https://example.com/post'' None [floorArticle n, Text ''tail'']"

text \<open>The root address with a query string, and an image document, which has no body.\<close>

definition queryPage :: window where
  "queryPage = page ''https://example.com/?page=2'' (Some ''News'') [floorArticle 201]"

definition bodylessPage :: window where
  "bodylessPage =
     \<lparr>location_href = ''https://example.com/logo.svg'',
      documentElement = Element (shown ''svg'' []) [Element (shown ''circle'' []) []],
      global_articleTitle = None\<rparr>"

text \<open>A rendered text block with three child elements and 501 characters, between two
  text nodes; no content container and no paragraph.\<close>

definition shownBlock :: node where
  "shownBlock = Element (shown ''div'' [])
     (replicate 3 (Element (shown ''span'' []) [Text (filler 167)]))"

definition blockBody :: node where
  "blockBody = Element (shown ''body'' []) [Text ''  '', shownBlock, Text ''tail'']"

definition blockPage :: window where
  "blockPage = page ''https://example.com/news/story'' None [Text ''  '', shownBlock, Text ''tail'']"

text \<open>Two paragraphs with tabs, line ends and runs of spaces.\<close>

definition popupPage :: window where
  "popupPage = page ''https://example.com/post'' None
     [Element (shown ''p'' []) [Text ('' One'' @ [CHR 0x09] @ filler 50 @ [CHR 0x0D, CHR 0x0A])],
      Element (shown ''p'' []) [Text (''two   '' @ filler 50 @ ''  '')]]"

section \<open>Lemmas\<close>

subsection \<open>Trimming and collapsing\<close>

lemma trim_eq_Nil_iff: "trim s = [] \<longleftrightarrow> (\<forall>c\<in>set s. isSpace c)"
proof
  assume "trim s = []"
  then have "\<forall>c\<in>set (dropWhile isSpace s). isSpace c"
    by (simp add: trim_def)
  then have "dropWhile isSpace s = []"
    using hd_dropWhile [of isSpace s] hd_in_set [of "dropWhile isSpace s"] by blast
  then show "\<forall>c\<in>set s. isSpace c"
    by simp
next
  assume "\<forall>c\<in>set s. isSpace c"
  then have dw: "dropWhile isSpace s = []" by simp
  show "trim s = []" unfolding trim_def dw by simp
qed

lemma dropWhile_id: "s \<noteq> [] \<Longrightarrow> \<not> P (hd s) \<Longrightarrow> dropWhile P s = s"
  by (cases s) simp_all

lemma trim_id: "s \<noteq> [] \<Longrightarrow> \<not> isSpace (hd s) \<Longrightarrow> \<not> isSpace (last s) \<Longrightarrow> trim s = s"
proof -
  assume a: "s \<noteq> []" "\<not> isSpace (hd s)" "\<not> isSpace (last s)"
  from a(1,2) have 1: "dropWhile isSpace s = s"
    by (rule dropWhile_id)
  from a have "rev s \<noteq> []" "\<not> isSpace (hd (rev s))" by (simp_all add: hd_rev)
  then have 2: "dropWhile isSpace (rev s) = rev s"
    by (rule dropWhile_id)
  show ?thesis unfolding trim_def by (simp add: 1 2)
qed

lemma trim_ends:
  assumes "trim s \<noteq> []"
  shows "\<not> isSpace (hd (trim s))" and "\<not> isSpace (last (trim s))"
proof -
  let ?a = "dropWhile isSpace s"
  let ?b = "dropWhile isSpace (rev ?a)"
  from assms have b: "?b \<noteq> []" by (simp add: trim_def)
  have a: "?a \<noteq> []"
  proof
    assume e: "?a = []"
    have "?b = []" unfolding e by simp
    with b show False ..
  qed
  have "last (trim s) = hd ?b"
    using b by (simp add: trim_def last_rev)
  then show "\<not> isSpace (last (trim s))"
    using hd_dropWhile [OF b] by simp
  have hda: "\<not> isSpace (hd ?a)"
    using hd_dropWhile [OF a] .
  have "\<exists>n. ?b = drop n (rev ?a)"
    by (metis dropWhile_eq_drop)
  then obtain n where n: "?b = drop n (rev ?a)" by blast
  with b have "n < length ?a" by auto
  then have "hd (rev (drop n (rev ?a))) = hd ?a"
    by (simp add: rev_drop hd_take)
  then show "\<not> isSpace (hd (trim s))"
    using hda n by (simp add: trim_def)
qed

lemma trim_take_drop: "\<exists>j k. trim s = take k (drop j s)"
proof -
  let ?a = "dropWhile isSpace s"
  obtain j where j: "?a = drop j s" by (metis dropWhile_eq_drop)
  obtain n where n: "dropWhile isSpace (rev ?a) = drop n (rev ?a)" by (metis dropWhile_eq_drop)
  have "trim s = rev (drop n (rev ?a))" by (simp add: trim_def n)
  also have "\<dots> = take (length ?a - n) ?a" by (simp add: rev_drop)
  finally show ?thesis using j by metis
qed

lemma trim_trim: "trim (trim s) = trim s"
proof (cases "trim s = []")
  case True
  show ?thesis unfolding True by (simp add: trim_def)
next
  case False
  then show ?thesis by (intro trim_id trim_ends)
qed

text \<open>Replacing runs.\<close>

lemma dropWhile_append_hd: "x \<noteq> [] \<Longrightarrow> \<not> P (hd x) \<Longrightarrow> dropWhile P (u @ x) = dropWhile P u @ x"
  by (induction u) (auto simp: dropWhile_id)

lemma replaceRuns_append:
  "x \<noteq> [] \<Longrightarrow> \<not> P (hd x) \<Longrightarrow> replaceRuns P r (u @ x) = replaceRuns P r u @ replaceRuns P r x"
proof (induction P r u rule: replaceRuns.induct)
  case (1 P r)
  then show ?case by simp
next
  case (2 P r c cs)
  then show ?case by (simp add: dropWhile_append_hd)
qed

lemma replaceRuns_none: "\<forall>c\<in>set s. \<not> P c \<Longrightarrow> replaceRuns P r s = s"
  by (induction s) auto

lemma replaceRuns_prefix_none:
  "\<forall>c\<in>set x. \<not> P c \<Longrightarrow> replaceRuns P r (x @ v) = x @ replaceRuns P r v"
  by (induction x) auto

lemma singleSpaced_collapse: "singleSpaced (replaceRuns isSpace '' '' s)"
proof (induction isSpace "'' ''" s rule: replaceRuns.induct)
  case 1
  then show ?case by simp
next
  case (2 c cs)
  show ?case
  proof (cases "isSpace c")
    case True
    have "dropWhile isSpace cs = [] \<or> (\<exists>d ds. dropWhile isSpace cs = d # ds \<and> \<not> isSpace d)"
      using hd_dropWhile [of isSpace cs] by (cases "dropWhile isSpace cs") auto
    then show ?thesis
    proof
      assume dw: "dropWhile isSpace cs = []"
      have "replaceRuns isSpace '' '' (c # cs) = '' ''"
        using True by (simp only: replaceRuns.simps dw if_True append_Nil2)
      then show ?thesis by (simp add: isSpace_def)
    next
      assume "\<exists>d ds. dropWhile isSpace cs = d # ds \<and> \<not> isSpace d"
      then obtain d ds where d: "dropWhile isSpace cs = d # ds" "\<not> isSpace d" by blast
      with True 2(1) show ?thesis by (simp add: isSpace_def)
    qed
  next
    case False
    with 2(2) show ?thesis
      by (cases "replaceRuns isSpace '' '' cs") auto
  qed
qed

lemma singleSpaced_tl: "singleSpaced (c # cs) \<Longrightarrow> singleSpaced cs"
  by (cases cs) simp_all

lemma singleSpaced_drop: "singleSpaced s \<Longrightarrow> singleSpaced (drop n s)"
proof (induction n arbitrary: s)
  case 0
  then show ?case by simp
next
  case (Suc n)
  then show ?case by (cases s) (auto dest: singleSpaced_tl)
qed

lemma singleSpaced_take: "singleSpaced s \<Longrightarrow> singleSpaced (take n s)"
proof (induction s arbitrary: n rule: singleSpaced.induct)
  case 1
  then show ?case by simp
next
  case (2 c)
  then show ?case by (cases n) simp_all
next
  case (3 c d cs)
  show ?case
  proof (cases n)
    case 0
    then show ?thesis by simp
  next
    case (Suc m)
    from 3 have ih: "singleSpaced (take m (d # cs))" by simp
    show ?thesis
    proof (cases m)
      case 0
      with Suc 3(2) show ?thesis by (simp split: if_splits)
    next
      case (Suc k)
      with \<open>n = Suc m\<close> ih 3(2) show ?thesis by (simp split: if_splits)
    qed
  qed
qed

lemma singleSpaced_trim: "singleSpaced s \<Longrightarrow> singleSpaced (trim s)"
  using trim_take_drop [of s] singleSpaced_take singleSpaced_drop by fastforce

lemma singleSpaced_only_space: "singleSpaced s \<Longrightarrow> c \<in> set s \<Longrightarrow> isSpace c \<Longrightarrow> c = CHR '' ''"
  by (induction s rule: singleSpaced.induct) (auto split: if_splits)

lemma singleSpaced_no_pair:
  "singleSpaced s \<Longrightarrow> Suc i < length s \<Longrightarrow> isSpace (s ! i) \<Longrightarrow> \<not> isSpace (s ! Suc i)"
proof (induction s arbitrary: i rule: singleSpaced.induct)
  case 1
  then show ?case by simp
next
  case (2 c)
  then show ?case by simp
next
  case (3 c d cs)
  then show ?case by (cases i) (auto split: if_splits)
qed

lemma collapse_singleSpaced: "singleSpaced s \<Longrightarrow> replaceRuns isSpace '' '' s = s"
  by (induction s rule: singleSpaced.induct) (auto split: if_splits)

lemma singleSpaced_free:
  assumes "singleSpaced s" "isSpace d" "d \<noteq> CHR '' ''"
  shows "replaceRuns (\<lambda>c. c = d) r s = s"
proof (rule replaceRuns_none)
  show "\<forall>c\<in>set s. c \<noteq> d"
    using assms singleSpaced_only_space by blast
qed

lemma cleanUp_alt: "cleanUp s = trim (removeAds (replaceRuns isSpace '' '' s))"
proof -
  let ?c = "replaceRuns isSpace '' '' s"
  have c: "singleSpaced ?c" by (rule singleSpaced_collapse)
  have 1: "replaceRuns (\<lambda>c. c = CHR 0x0A) [CHR 0x0A] ?c = ?c"
    by (rule singleSpaced_free [OF c]) (simp_all add: isSpace_def)
  have 2: "replaceRuns (\<lambda>c. c = CHR 0x09) '' '' ?c = ?c"
    by (rule singleSpaced_free [OF c]) (simp_all add: isSpace_def)
  have 3: "replaceRuns (\<lambda>c. c = CHR 0x0D) [] ?c = ?c"
    by (rule singleSpaced_free [OF c]) (simp_all add: isSpace_def)
  show ?thesis unfolding cleanUp_def 1 2 3 ..
qed

lemma popup_cleanUp_alt: "popup_cleanUp s = trim (replaceRuns isSpace '' '' s)"
proof -
  let ?c = "replaceRuns isSpace '' '' s"
  have c: "singleSpaced ?c" by (rule singleSpaced_collapse)
  have 1: "replaceRuns (\<lambda>c. c = CHR 0x0A) [CHR 0x0A] ?c = ?c"
    by (rule singleSpaced_free [OF c]) (simp_all add: isSpace_def)
  show ?thesis unfolding popup_cleanUp_def 1 ..
qed

subsection \<open>Removing the token\<close>

lemma matchesAd_length: "matchesAd s \<Longrightarrow> 13 \<le> length s"
proof -
  assume "matchesAd s"
  then have "length (map lowerChar (take 13 s)) = length adToken"
    by (simp add: matchesAd_def)
  then show ?thesis by (simp add: adToken_def)
qed

lemma matchesAd_append: "13 \<le> length s \<Longrightarrow> matchesAd (s @ t) = matchesAd s"
  by (simp add: matchesAd_def)

lemma matchesAd_take: "13 \<le> k \<Longrightarrow> matchesAd (take k s) = matchesAd s"
  by (simp add: matchesAd_def min_def)

lemma length_removeAds: "length (removeAds s) \<le> length s"
proof (induction s rule: removeAds.induct)
  case 1
  then show ?case by simp
next
  case (2 c cs)
  then show ?case by (auto intro: le_trans [where j = "length cs - 12"] le_SucI)
qed

lemma removeAds_id_iff: "removeAds s = s \<longleftrightarrow> (\<forall>n. \<not> matchesAd (drop n s))"
proof (induction s)
  case Nil
  then show ?case by (simp add: matchesAd_def adToken_def)
next
  case (Cons c cs)
  show ?case
  proof (cases "matchesAd (c # cs)")
    case True
    have le: "length (removeAds (c # cs)) \<le> length cs - 12"
      using True length_removeAds [of "drop 12 cs"] by simp
    have "removeAds (c # cs) \<noteq> c # cs"
    proof
      assume e: "removeAds (c # cs) = c # cs"
      from le show False unfolding e by simp
    qed
    moreover have "\<exists>n. matchesAd (drop n (c # cs))"
      using True by (intro exI [of _ 0]) simp
    ultimately show ?thesis by blast
  next
    case False
    have "(\<forall>n. \<not> matchesAd (drop n (c # cs))) \<longleftrightarrow> (\<forall>n. \<not> matchesAd (drop n cs))"
    proof
      assume a: "\<forall>n. \<not> matchesAd (drop n (c # cs))"
      show "\<forall>n. \<not> matchesAd (drop n cs)"
      proof
        fix n from a have "\<not> matchesAd (drop (Suc n) (c # cs))" by blast
        then show "\<not> matchesAd (drop n cs)" by simp
      qed
    next
      assume a: "\<forall>n. \<not> matchesAd (drop n cs)"
      show "\<forall>n. \<not> matchesAd (drop n (c # cs))"
      proof
        fix n show "\<not> matchesAd (drop n (c # cs))"
          using a False by (cases n) simp_all
      qed
    qed
    with False Cons show ?thesis by simp
  qed
qed

lemma removeAds_id_drop: "removeAds s = s \<Longrightarrow> removeAds (drop j s) = drop j s"
  by (simp add: removeAds_id_iff)

lemma removeAds_id_take:
  assumes "removeAds s = s"
  shows "removeAds (take k s) = take k s"
proof -
  have "\<not> matchesAd (drop n (take k s))" for n
  proof
    assume m: "matchesAd (drop n (take k s))"
    then have "13 \<le> length (drop n (take k s))" by (rule matchesAd_length)
    then have "13 \<le> k - n" by simp
    moreover have "drop n (take k s) = take (k - n) (drop n s)" by (simp add: drop_take)
    ultimately have "matchesAd (drop n s)" using m by (simp add: matchesAd_take)
    with assms show False by (simp add: removeAds_id_iff)
  qed
  then show ?thesis by (simp add: removeAds_id_iff)
qed

lemma removeAds_id_trim:
  assumes "removeAds s = s"
  shows "removeAds (trim s) = trim s"
proof -
  obtain j k where "trim s = take k (drop j s)" using trim_take_drop by blast
  then show ?thesis by (simp add: removeAds_id_take removeAds_id_drop assms)
qed

text \<open>An occurrence is removed wherever it stands: no match can begin before it and
  reach into it, since the letter a occurs in the token only at its start.\<close>

lemma lowerChar_a: "matchesAd w \<Longrightarrow> lowerChar (hd w) = CHR ''a''"
proof -
  assume m: "matchesAd w"
  then have "13 \<le> length w" by (rule matchesAd_length)
  then obtain c cs where w: "w = c # cs" by (cases w) auto
  with m show ?thesis by (simp add: matchesAd_def adToken_def)
qed

lemma adToken_nth: "0 < d \<Longrightarrow> d < 13 \<Longrightarrow> adToken ! d \<noteq> CHR ''a''"
proof -
  assume "0 < d" "d < 13"
  then have "d = 1 \<or> d = 2 \<or> d = 3 \<or> d = 4 \<or> d = 5 \<or> d = 6 \<or> d = 7 \<or> d = 8
      \<or> d = 9 \<or> d = 10 \<or> d = 11 \<or> d = 12" by arith
  then show ?thesis by (auto simp: adToken_def)
qed

lemma no_straddle:
  assumes w: "matchesAd w" and u: "u \<noteq> []" "length u < 13"
  shows "\<not> matchesAd (u @ w @ v)"
proof
  assume m: "matchesAd (u @ w @ v)"
  let ?d = "length u"
  from w have lw: "13 \<le> length w" by (rule matchesAd_length)
  from m have "map lowerChar (take 13 (u @ w @ v)) ! ?d = adToken ! ?d"
    by (simp add: matchesAd_def)
  moreover have "?d < length (take 13 (u @ w @ v))"
    using u lw by simp
  then have "map lowerChar (take 13 (u @ w @ v)) ! ?d = lowerChar (take 13 (u @ w @ v) ! ?d)"
    by (rule nth_map)
  moreover have "take 13 (u @ w @ v) ! ?d = (u @ w @ v) ! ?d"
    by (rule nth_take) (use u in simp)
  moreover have "(u @ w @ v) ! ?d = hd w"
    using lw by (cases w) (simp_all add: nth_append)
  ultimately have "adToken ! ?d = CHR ''a''"
    using lowerChar_a [OF w] by simp
  moreover have "0 < ?d" using u by simp
  ultimately show False using adToken_nth u(2) by blast
qed

lemma removeAds_occurrence:
  assumes w: "matchesAd w" "length w = 13"
  shows "removeAds (u @ w @ v) = removeAds u @ removeAds v"
proof (induction u rule: length_induct)
  case (1 u)
  show ?case
  proof (cases u)
    case Nil
    from w obtain c cs where wc: "w = c # cs" by (cases w) auto
    with w have "length cs = 12" by simp
    then have "drop 12 (cs @ v) = v" by simp
    moreover have "matchesAd (c # cs @ v)"
      using w wc matchesAd_append [of w v] by simp
    ultimately show ?thesis using Nil wc by simp
  next
    case (Cons c u')
    show ?thesis
    proof (cases "matchesAd (c # u')")
      case True
      then have l: "13 \<le> length (c # u')" by (rule matchesAd_length)
      then have m: "matchesAd (c # u' @ w @ v)"
        using True matchesAd_append [of "c # u'" "w @ v"] by simp
      from l have d: "drop 12 (u' @ w @ v) = drop 12 u' @ w @ v" by simp
      have "length (drop 12 u') < length u" using Cons by simp
      with 1 have "removeAds (drop 12 u' @ w @ v) = removeAds (drop 12 u') @ removeAds v"
        by blast
      with True m d Cons show ?thesis by simp
    next
      case False
      have n: "\<not> matchesAd (c # u' @ w @ v)"
      proof (cases "13 \<le> length (c # u')")
        case True
        with False matchesAd_append [of "c # u'" "w @ v"] show ?thesis by simp
      next
        case False
        then have "length (c # u') < 13" by simp
        with no_straddle [OF w(1), of "c # u'" v] show ?thesis by simp
      qed
      have "length u' < length u" using Cons by simp
      with 1 have "removeAds (u' @ w @ v) = removeAds u' @ removeAds v" by blast
      with False n Cons show ?thesis by simp
    qed
  qed
qed

lemma lowerChar_space:
  assumes "isSpace c"
  shows "lowerChar c \<notin> set adToken"
proof -
  have "lowerChar (CHR 0x09) \<notin> set adToken" "lowerChar (CHR 0x0A) \<notin> set adToken"
    "lowerChar (CHR 0x0B) \<notin> set adToken" "lowerChar (CHR 0x0C) \<notin> set adToken"
    "lowerChar (CHR 0x0D) \<notin> set adToken" "lowerChar (CHR 0x20) \<notin> set adToken"
    "lowerChar (CHR 0xA0) \<notin> set adToken"
    by code_simp+
  moreover from assms have "c = CHR 0x09 \<or> c = CHR 0x0A \<or> c = CHR 0x0B \<or> c = CHR 0x0C
      \<or> c = CHR 0x0D \<or> c = CHR 0x20 \<or> c = CHR 0xA0"
    by (simp add: isSpace_def)
  ultimately show ?thesis by blast
qed

lemma matchesAd_no_space:
  assumes "matchesAd w" "length w = 13"
  shows "\<forall>c\<in>set w. \<not> isSpace c"
proof
  fix c assume c: "c \<in> set w"
  from assms have "map lowerChar w = adToken" by (simp add: matchesAd_def)
  then have "set (map lowerChar w) = set adToken" by simp
  then have "lowerChar c \<in> set adToken" using c by auto
  then show "\<not> isSpace c" using lowerChar_space by blast
qed

lemma collapse_around:
  assumes "matchesAd w" "length w = 13"
  shows "replaceRuns isSpace r (u @ w @ v) = replaceRuns isSpace r u @ w @ replaceRuns isSpace r v"
proof -
  have ns: "\<forall>c\<in>set w. \<not> isSpace c" using assms by (rule matchesAd_no_space)
  from assms obtain c cs where w: "w = c # cs" by (cases w) auto
  with ns have "w @ v \<noteq> []" "\<not> isSpace (hd (w @ v))" by simp_all
  then have "replaceRuns isSpace r (u @ w @ v) = replaceRuns isSpace r u @ replaceRuns isSpace r (w @ v)"
    by (rule replaceRuns_append)
  then show ?thesis using replaceRuns_prefix_none [OF ns] by simp
qed

subsection \<open>The running maximum\<close>

lemma keepBest_cases:
  "keepBest f xs (b, s) = (b', s') \<Longrightarrow>
     (b' = b \<and> s' = s \<and> list_all (\<lambda>y. f y \<le> s) xs) \<or>
     (\<exists>i. firstBest f xs i \<and> b' = Some (xs ! i) \<and> s' = f (xs ! i) \<and> s < f (xs ! i))"
proof (induction xs arbitrary: b s)
  case Nil
  then show ?case by simp
next
  case (Cons x xs)
  show ?case
  proof (cases "f x > s")
    case True
    with Cons.prems have k: "keepBest f xs (Some x, f x) = (b', s')" by simp
    from Cons.IH [OF k] show ?thesis
    proof
      assume a: "b' = Some x \<and> s' = f x \<and> list_all (\<lambda>y. f y \<le> f x) xs"
      then have "firstBest f (x # xs) 0" by (simp add: firstBest_def)
      with a True show ?thesis by (intro disjI2 exI [of _ 0]) simp
    next
      assume "\<exists>i. firstBest f xs i \<and> b' = Some (xs ! i) \<and> s' = f (xs ! i) \<and> f x < f (xs ! i)"
      then obtain i where i: "firstBest f xs i" "b' = Some (xs ! i)" "s' = f (xs ! i)"
        "f x < f (xs ! i)" by blast
      then have "firstBest f (x # xs) (Suc i)" by (simp add: firstBest_def)
      with i True show ?thesis by (intro disjI2 exI [of _ "Suc i"]) simp
    qed
  next
    case False
    with Cons.prems have k: "keepBest f xs (b, s) = (b', s')" by simp
    from Cons.IH [OF k] show ?thesis
    proof
      assume "b' = b \<and> s' = s \<and> list_all (\<lambda>y. f y \<le> s) xs"
      with False show ?thesis by simp
    next
      assume "\<exists>i. firstBest f xs i \<and> b' = Some (xs ! i) \<and> s' = f (xs ! i) \<and> s < f (xs ! i)"
      then obtain i where i: "firstBest f xs i" "b' = Some (xs ! i)" "s' = f (xs ! i)"
        "s < f (xs ! i)" by blast
      with False have "firstBest f (x # xs) (Suc i)" by (simp add: firstBest_def)
      with i show ?thesis by (intro disjI2 exI [of _ "Suc i"]) simp
    qed
  qed
qed

subsection \<open>The two scoring loops\<close>

lemma scoreElements_Cons:
  "scoreElements t (x # xs) (b, s) =
     (if accepted x then
        if t \<noteq> [] \<and> sublist t (textContent x) then Inl TypeError
        else if s < score x then scoreElements t xs (Some x, score x)
        else scoreElements t xs (b, s)
      else scoreElements t xs (b, s))"
  by (simp add: accepted_def textLength_def)

lemma scoreElements_append:
  "scoreElements t (xs @ ys) st =
     (case scoreElements t xs st of Inl err \<Rightarrow> Inl err | Inr st' \<Rightarrow> scoreElements t ys st')"
proof (induction xs arbitrary: st)
  case Nil
  then show ?case by simp
next
  case (Cons x xs)
  obtain b s where st: "st = (b, s)" by (cases st)
  show ?case
    unfolding st append_Cons scoreElements_Cons
    by (simp only: Cons.IH sum.case if_distrib [of "case_sum Inl (scoreElements t ys)"] cong: if_cong)
qed

lemma scoreSelectors_flat:
  "scoreSelectors t b sels st =
     scoreElements t (concat (map (\<lambda>sel. querySelectorAll b [sel]) sels)) st"
proof (induction sels arbitrary: st)
  case Nil
  then show ?case by simp
next
  case (Cons sel sels)
  then show ?case by (simp add: scoreElements_append split: sum.splits)
qed

lemma scoreElements_Inr:
  "scoreElements t xs st = Inr st' \<Longrightarrow> st' = keepBest score (filter accepted xs) st"
proof (induction xs arbitrary: st)
  case Nil
  then show ?case by simp
next
  case (Cons x xs)
  obtain b s where st: "st = (b, s)" by (cases st)
  show ?case
  proof (cases "accepted x")
    case False
    with Cons.prems have "scoreElements t xs (b, s) = Inr st'"
      unfolding st scoreElements_Cons by simp
    from Cons.IH [OF this] False show ?thesis unfolding st by simp
  next
    case True
    show ?thesis
    proof (cases "t \<noteq> [] \<and> sublist t (textContent x)")
      case True
      with \<open>accepted x\<close> Cons.prems show ?thesis
        unfolding st scoreElements_Cons by simp
    next
      case nohit: False
      show ?thesis
      proof (cases "s < score x")
        case True
        with nohit \<open>accepted x\<close> Cons.prems have "scoreElements t xs (Some x, score x) = Inr st'"
          unfolding st scoreElements_Cons by (auto split: if_splits)
        from Cons.IH [OF this] True \<open>accepted x\<close> show ?thesis unfolding st by simp
      next
        case False
        with nohit \<open>accepted x\<close> Cons.prems have "scoreElements t xs (b, s) = Inr st'"
          unfolding st scoreElements_Cons by (auto split: if_splits)
        from Cons.IH [OF this] False \<open>accepted x\<close> show ?thesis unfolding st by simp
      qed
    qed
  qed
qed

lemma scoreElements_quiet:
  "\<forall>el\<in>set xs. accepted el \<longrightarrow> t = [] \<or> \<not> sublist t (textContent el) \<Longrightarrow>
   scoreElements t xs st = Inr (keepBest score (filter accepted xs) st)"
proof (induction xs arbitrary: st)
  case Nil
  then show ?case by simp
next
  case (Cons x xs)
  obtain b s where st: "st = (b, s)" by (cases st)
  from Cons.prems have rest: "\<forall>el\<in>set xs. accepted el \<longrightarrow> t = [] \<or> \<not> sublist t (textContent el)"
    by simp
  note ih = Cons.IH [OF rest]
  show ?case
  proof (cases "accepted x")
    case False
    then show ?thesis unfolding st scoreElements_Cons by (simp add: ih)
  next
    case True
    with Cons.prems have "\<not> (t \<noteq> [] \<and> sublist t (textContent x))" by simp
    with True show ?thesis unfolding st scoreElements_Cons by (auto simp: ih)
  qed
qed

subsection \<open>The stages\<close>

lemma length_trim_le: "length (trim s) \<le> length s"
proof -
  obtain j k where "trim s = take k (drop j s)" using trim_take_drop by blast
  then show ?thesis by simp
qed

lemma featuredArticle_Homepage:
  "featuredArticle w sels = Some r \<Longrightarrow> \<exists>t l d. r = Homepage t l d"
  by (induction sels) (auto split: option.splits if_splits)

text \<open>The multiplication of the score raises as soon as it is reached. On the copy of
  the body it is not reached, see below.\<close>

lemma boost_raises_when_reached:
  "el \<in> set xs \<Longrightarrow> accepted el \<Longrightarrow> t \<noteq> [] \<Longrightarrow> sublist t (textContent el) \<Longrightarrow>
   scoreElements t xs st = Inl TypeError"
proof (induction xs arbitrary: st)
  case Nil
  then show ?case by simp
next
  case (Cons x xs)
  obtain b s where st: "st = (b, s)" by (cases st)
  show ?case
  proof (cases "accepted x \<and> sublist t (textContent x)")
    case True
    with Cons.prems show ?thesis unfolding st scoreElements_Cons by simp
  next
    case False
    with Cons.prems have "el \<in> set xs" by auto
    then have "scoreElements t xs st' = Inl TypeError" for st'
      using Cons.IH Cons.prems by blast
    with False show ?thesis unfolding st scoreElements_Cons by auto
  qed
qed

lemma isHomePage_iff:
  "isHomePage w \<longleftrightarrow>
     suffix ''/'' (location_href w) \<or> suffix ''.com'' (location_href w)
     \<or> suffix ''.org'' (location_href w) \<or> suffix ''.net'' (location_href w)
     \<or> 5 < length (document_querySelectorAll w articleLinkSelectors)"
  by (auto simp: isHomePage_def Let_def)

subsection \<open>The copy of the body\<close>

text \<open>No element of the copy that \<^verbatim>\<open>getMainContent\<close> works on is rendered, so every
  test of \<^verbatim>\<open>isVisible\<close> fails there: no title is found, no element is scored, no
  paragraph and no text block is taken, and the text of the stripped copy is returned.\<close>

lemma unrendered_cloneNode: "unrendered (cloneNode n)"
  by (induction n) (simp_all add: list_all_iff)

lemma unrendered_removeMatching: "unrendered n \<Longrightarrow> unrendered (removeMatching sel anc n)"
  by (induction n arbitrary: anc) (simp_all add: list_all_iff)

lemma unrendered_foldl:
  "unrendered n \<Longrightarrow> unrendered (foldl (\<lambda>t sel. removeMatching sel [] t) n sels)"
  by (induction sels arbitrary: n) (simp_all add: unrendered_removeMatching)

lemma unrendered_bodyClone: "unrendered (removeNonContent (cloneNode b))"
  by (simp add: removeNonContent_def unrendered_foldl unrendered_cloneNode)

lemma unrendered_select: "unrendered n \<Longrightarrow> x \<in> set (select sels anc n) \<Longrightarrow> unrendered x"
proof (induction n arbitrary: anc)
  case (Text s)
  then show ?case by simp
next
  case (Element e kids)
  from Element.prems(2) have "x = Element e kids \<or> (\<exists>k\<in>set kids. x \<in> set (select sels (e # anc) k))"
    by (auto split: if_splits)
  then show ?case
  proof
    assume "x = Element e kids"
    with Element.prems(1) show ?thesis by simp
  next
    assume "\<exists>k\<in>set kids. x \<in> set (select sels (e # anc) k)"
    then obtain k where k: "k \<in> set kids" "x \<in> set (select sels (e # anc) k)" by blast
    from Element.prems(1) k(1) have "unrendered k" by (simp add: list_all_iff)
    with Element.IH k show ?thesis by blast
  qed
qed

lemma unrendered_hidden: "unrendered x \<Longrightarrow> \<not> isVisible x"
  by (cases x) simp_all

lemma unrendered_query:
  assumes "unrendered b" "x \<in> set (querySelectorAll b sels)"
  shows "\<not> isVisible x"
proof (cases b)
  case (Text s)
  with assms(2) show ?thesis by simp
next
  case (Element e kids)
  with assms(2) obtain k where k: "k \<in> set kids" "x \<in> set (select sels [e] k)" by auto
  from assms(1) Element k(1) have "unrendered k" by (simp add: list_all_iff)
  then have "unrendered x" using k(2) by (rule unrendered_select)
  then show ?thesis by (rule unrendered_hidden)
qed

lemma findTitle_unrendered: "unrendered b \<Longrightarrow> findTitle b sels = []"
proof (induction sels)
  case Nil
  then show ?case by simp
next
  case (Cons sel sels)
  show ?case
  proof (cases "querySelectorAll b [sel]")
    case Nil
    with Cons show ?thesis by (simp add: querySelector_def)
  next
    case (Cons x xs)
    then have "x \<in> set (querySelectorAll b [sel])" by simp
    with Cons.prems have "\<not> isVisible x" by (rule unrendered_query)
    with Cons Cons.IH Cons.prems show ?thesis by (simp add: querySelector_def)
  qed
qed

lemma scoreElements_hidden: "\<forall>x\<in>set xs. \<not> isVisible x \<Longrightarrow> scoreElements t xs st = Inr st"
proof (induction xs)
  case Nil
  then show ?case by simp
next
  case (Cons x xs)
  obtain b s where st: "st = (b, s)" by (cases st)
  from Cons show ?case unfolding st by simp
qed

lemma scoreSelectors_unrendered: "unrendered b \<Longrightarrow> scoreSelectors t b sels st = Inr st"
proof (induction sels)
  case Nil
  then show ?case by simp
next
  case (Cons sel sels)
  from Cons.prems have "\<forall>x\<in>set (querySelectorAll b [sel]). \<not> isVisible x"
    using unrendered_query by blast
  then have "scoreElements t (querySelectorAll b [sel]) st = Inr st"
    by (rule scoreElements_hidden)
  with Cons show ?case by simp
qed

lemma paragraphs_unrendered: "unrendered b \<Longrightarrow> paragraphs b = []"
  using unrendered_query by (auto simp: paragraphs_def filter_empty_conv)

lemma scanBlocks_hidden: "\<forall>x\<in>set xs. \<not> isVisible x \<Longrightarrow> scanBlocks xs st = st"
proof (induction xs)
  case Nil
  then show ?case by simp
next
  case (Cons x xs)
  obtain b s where st: "st = (b, s)" by (cases st)
  from Cons show ?case unfolding st by simp
qed

lemma fallback_unrendered:
  assumes "unrendered b"
  shows "fallback b = textContent b"
proof -
  from assms have "\<forall>x\<in>set (querySelectorAll b textBlockSelectors). \<not> isVisible x"
    using unrendered_query by blast
  then have "scanBlocks (querySelectorAll b textBlockSelectors) ([], 0) = ([], 0)"
    by (rule scanBlocks_hidden)
  then show ?thesis by (simp add: fallback_def paragraphs_unrendered [OF assms])
qed

lemma mainContent_unrendered: "unrendered b \<Longrightarrow> mainContent t b = Inr (textContent b)"
  by (simp add: mainContent_def scoreSelectors_unrendered fallback_unrendered)

lemma getMainContent_body_text:
  "getMainContent w =
     (case document_body w of
        None \<Rightarrow> Inl TypeError
      | Some b \<Rightarrow> Inr (textContent (removeNonContent (cloneNode b))))"
  by (simp add: getMainContent_def Let_def mainContent_unrendered unrendered_bodyClone
           split: option.splits)

text \<open>What the six-step clean-up guarantees for the content of a returned article.\<close>

lemma set_removeAds: "set (removeAds s) \<subseteq> set s"
proof (induction s rule: removeAds.induct)
  case 1
  then show ?case by simp
next
  case (2 c cs)
  show ?case
  proof (cases "matchesAd (c # cs)")
    case True
    with 2 have "set (removeAds (c # cs)) \<subseteq> set (drop 12 cs)" by simp
    also have "\<dots> \<subseteq> set (c # cs)" using set_drop_subset [of 12 cs] by auto
    finally show ?thesis .
  next
    case False
    with 2 show ?thesis by auto
  qed
qed

lemma article_content_clean:
  assumes "extractPageContent w = Inr (Article t c)"
  shows "CHR 0x0A \<notin> set c \<and> CHR 0x09 \<notin> set c \<and> CHR 0x0D \<notin> set c
         \<and> (c = [] \<or> (\<not> isSpace (hd c) \<and> \<not> isSpace (last c)))"
proof -
  have "featuredArticle w featuredArticleSelectors \<noteq> Some (Article t c)"
    using featuredArticle_Homepage [of w featuredArticleSelectors "Article t c"] by auto
  with assms obtain content where c: "c = cleanUp content"
    by (auto simp: extractPageContent_def split: if_splits option.splits sum.splits)
  let ?k = "replaceRuns isSpace '' '' content"
  have "set c \<subseteq> set (removeAds ?k)"
  proof -
    obtain j k where "trim (removeAds ?k) = take k (drop j (removeAds ?k))"
      using trim_take_drop by blast
    then have "set (trim (removeAds ?k)) \<subseteq> set (removeAds ?k)"
      using set_take_subset [of k "drop j (removeAds ?k)"] set_drop_subset [of j "removeAds ?k"]
      by auto
    then show ?thesis by (simp add: c cleanUp_alt)
  qed
  then have sub: "set c \<subseteq> set ?k" using set_removeAds [of ?k] by blast
  have only: "d \<in> set ?k \<Longrightarrow> isSpace d \<Longrightarrow> d = CHR '' ''" for d
    using singleSpaced_only_space [OF singleSpaced_collapse] by blast
  have sp: "isSpace (CHR 0x0A)" "isSpace (CHR 0x09)" "isSpace (CHR 0x0D)"
    by (simp_all add: isSpace_def)
  have "CHR 0x0A \<notin> set c" "CHR 0x09 \<notin> set c" "CHR 0x0D \<notin> set c"
    using sub only sp by auto
  moreover have "c = [] \<or> (\<not> isSpace (hd c) \<and> \<not> isSpace (last c))"
    using trim_ends [of "removeAds ?k"] by (auto simp: c cleanUp_alt)
  ultimately show ?thesis by blast
qed

subsection \<open>The plain extractor\<close>

lemma popup_firstElement_find:
  "popup_firstElement xs =
     map_option textContent (find (\<lambda>el. isVisible el \<and> 200 < length (textContent el)) xs)"
  by (induction xs) auto

lemma popup_firstSelector_find:
  "popup_firstSelector w sels =
     map_option textContent
       (find (\<lambda>el. isVisible el \<and> 200 < length (textContent el))
             (concat (map (\<lambda>sel. document_querySelectorAll w [sel]) sels)))"
proof (induction sels)
  case Nil
  then show ?case by simp
next
  case (Cons sel sels)
  have f: "find P (xs @ ys) = (case find P xs of None \<Rightarrow> find P ys | Some x \<Rightarrow> Some x)"
    for P and xs ys :: "node list"
    by (induction xs) auto
  show ?case
    by (simp add: Cons popup_firstElement_find f split: option.splits)
qed

lemma find_in_list: "find P xs = Some x \<Longrightarrow> x \<in> set xs \<and> P x"
  by (induction xs) (auto split: if_splits)

lemma popup_cleanUp_idempotent: "popup_cleanUp (popup_cleanUp s) = popup_cleanUp s"
proof -
  let ?c = "replaceRuns isSpace '' '' s"
  have "singleSpaced (trim ?c)" by (intro singleSpaced_trim singleSpaced_collapse)
  then have "replaceRuns isSpace '' '' (trim ?c) = trim ?c" by (rule collapse_singleSpaced)
  then show ?thesis by (simp add: popup_cleanUp_alt trim_trim)
qed

section \<open>The claims\<close>

text \<open>
  C1. Content candidate selection is a global maximum over all selector tiers: every
  visible element that matches a content selector and has more than 200 characters of
  text is scored, and the text of the element of highest score is returned, so that an
  element of a later tier beats an element of an earlier tier with a lower score. The
  script runs this selection on the copy of the body and tests the visibility of the
  elements of the copy. None of them is rendered, so none is scored, and
  \<^verbatim>\<open>getMainContent\<close> returns the text of the whole copy: on every page (lemma
  \<open>getMainContent_body_text\<close>), and on \<open>tierPage\<close>, where both containers are rendered
  and have more than 200 characters and the one of the later tier has the higher score.
  What is returned there is the text of the article, the headline and the container in
  one string. The plain extractor tests the elements of the document and stops at the
  first match, the article of the lower score.
\<close>

theorem tier_failing:
  "document_body tierPage = Some tierBody
   \<and> candidates tierBody = [tierArticle, tierStory]
   \<and> accepted tierArticle \<and> accepted tierStory
   \<and> score tierArticle = 201 \<and> score tierStory = 406
   \<and> candidates (removeNonContent (cloneNode tierBody)) = [cloneNode tierArticle, cloneNode tierStory]
   \<and> isVisible (cloneNode tierArticle) = False \<and> isVisible (cloneNode tierStory) = False
   \<and> scoreSelectors [] (removeNonContent (cloneNode tierBody)) contentSelectors (None, 0)
       = Inr (None, 0)
   \<and> getMainContent tierPage = Inr (filler 201 @ ''Budget'' @ ''Budget'' @ filler 400)
   \<and> getMainContent tierPage \<noteq> Inr (textContent tierStory)
   \<and> extractPageContent tierPage = Inl ReferenceError
   \<and> popup_getMainContent tierPage = Inr (textContent tierArticle)
   \<and> popup_getMainContent tierPage \<noteq> Inr (textContent tierStory)"
  by code_simp

text \<open>
  C2, as amended. A page whose address, taken as a whole with its query string and
  fragment, ends with \<^verbatim>\<open>/\<close>, \<^verbatim>\<open>.com\<close>, \<^verbatim>\<open>.org\<close> or \<^verbatim>\<open>.net\<close>, or that has more than 5
  matches of the heading-and-anchor patterns, is classified as a listing; the result is
  the homepage object built from the featured article selectors alone, so the scoring and
  the fallbacks play no part in it.
\<close>

theorem listing_takes_precedence:
  assumes "suffix ''/'' (location_href w) \<or> suffix ''.com'' (location_href w)
           \<or> suffix ''.org'' (location_href w) \<or> suffix ''.net'' (location_href w)
           \<or> 5 < length (document_querySelectorAll w articleLinkSelectors)"
  shows "isHomePage w
         \<and> (\<exists>t l d. extractPageContent w = Inr (Homepage t l d))
         \<and> extractPageContent w =
             Inr (case featuredArticle w featuredArticleSelectors of
                    Some r \<Rightarrow> r
                  | None \<Rightarrow> Homepage None None listingDescription)"
proof -
  from assms have h: "isHomePage w" by (auto simp: isHomePage_def Let_def)
  then have e: "extractPageContent w =
             Inr (case featuredArticle w featuredArticleSelectors of
                    Some r \<Rightarrow> r
                  | None \<Rightarrow> Homepage None None listingDescription)"
    by (simp add: extractPageContent_def split: option.splits)
  have "\<exists>t l d. extractPageContent w = Inr (Homepage t l d)"
  proof (cases "featuredArticle w featuredArticleSelectors")
    case None
    with e show ?thesis by simp
  next
    case (Some r)
    with featuredArticle_Homepage [OF Some] e show ?thesis by auto
  qed
  with h e show ?thesis by blast
qed

theorem listing_takes_precedence_witness:
  "5 < length (document_querySelectorAll listingPage articleLinkSelectors)
   \<and> getMainContent listingPage = Inl TypeError
   \<and> isHomePage listingPage
   \<and> extractPageContent listingPage = Inr (Homepage None None listingDescription)"
proof -
  have h: "5 < length (document_querySelectorAll listingPage articleLinkSelectors)"
    by code_simp
  have g: "getMainContent listingPage = Inl TypeError"
    by code_simp
  have f: "featuredArticle listingPage featuredArticleSelectors = None"
    by code_simp
  from listing_takes_precedence [of listingPage] h f g show ?thesis by simp
qed

text \<open>
  C2 as stated does not hold: the test is on the whole address, not on its path. The
  address of \<open>queryPage\<close> has the root path and a query string; the page is not
  classified as a listing, the scoring runs and an article is returned. The plain
  extractor classifies no page at all.
\<close>

theorem root_path_counterexample:
  "spec_urlPath (location_href queryPage) = ''/''
   \<and> spec_rootLike (location_href queryPage)
   \<and> isHomePage queryPage = False
   \<and> extractPageContent queryPage = Inr (Article ''News'' (filler 201))
   \<and> popup_extractPageContent queryPage = Inr (filler 201)"
  by code_simp

text \<open>
  C3. When the scoring finds no element, the fallbacks run in order and the first success
  wins: the paragraphs; then the best text block, the container of highest score among
  those with more than 2 children and more than 500 characters of text; then the text of
  the whole body. The script has the three stages in this order, and it runs them on the
  copy of the body, with \<^verbatim>\<open>isVisible(element)\<close> as the first test of the middle stage.
  No element of the copy passes it, so the middle stage never yields a text. On
  \<open>blockPage\<close> there is no content container and no paragraph, and the one text block is
  rendered and has 3 child elements and 501 characters: the script returns the text of the
  body, the block together with what stands before and behind it. The plain extractor has
  no middle stage and returns the body text as well.
\<close>

theorem block_failing:
  "document_body blockPage = Some blockBody
   \<and> candidates blockBody = []
   \<and> querySelectorAll blockBody [Is (Tag ''p'')] = []
   \<and> querySelectorAll blockBody textBlockSelectors = [shownBlock]
   \<and> isVisible shownBlock \<and> length (children shownBlock) = 3 \<and> textLength shownBlock = 501
   \<and> querySelectorAll (removeNonContent (cloneNode blockBody)) textBlockSelectors
       = [cloneNode shownBlock]
   \<and> isVisible (cloneNode shownBlock) = False
   \<and> scanBlocks (querySelectorAll (removeNonContent (cloneNode blockBody)) textBlockSelectors)
         ([], 0) = ([], 0)
   \<and> getMainContent blockPage = Inr (''  '' @ filler 501 @ ''tail'')
   \<and> getMainContent blockPage \<noteq> Inr (trim (textContent shownBlock))
   \<and> extractPageContent blockPage = Inl ReferenceError
   \<and> extractPageContent (blockPage\<lparr>global_articleTitle := Some ''News''\<rparr>)
       = Inr (Article ''News'' (filler 501 @ ''tail''))
   \<and> popup_getMainContent blockPage = Inr (''  '' @ filler 501 @ ''tail'')"
  by code_simp

text \<open>
  C4. Paragraph clustering takes the visible paragraphs with more than 40 characters,
  needs at least 4 of them and joins their texts with a blank line; a page with no
  content container and 5 paragraphs of 50 characters yields an article with that content.
  The script looks for the paragraphs in the copy of the body and tests their visibility
  there: no paragraph of the copy passes, and the stage never yields a text. On
  \<open>paragraphPage\<close>, whose five paragraphs are rendered, \<^verbatim>\<open>getMainContent\<close> returns the
  text of the body, the 250 characters without any separator; and then the last statement
  of \<^verbatim>\<open>extractPageContent\<close> raises, so that no article is returned at all. On a page that
  binds the global name \<^verbatim>\<open>articleTitle\<close> the article carries the body text, not the
  joined paragraphs. The plain extractor, whose paragraphs need more than 50 characters,
  returns the body text as well.
\<close>

theorem paragraph_failing:
  "document_body paragraphPage = Some paragraphBody
   \<and> candidates paragraphBody = []
   \<and> length (paragraphs paragraphBody) = 5
   \<and> paragraphs (removeNonContent (cloneNode paragraphBody)) = []
   \<and> getMainContent paragraphPage = Inr (filler 250)
   \<and> getMainContent paragraphPage \<noteq> Inr (join [CHR 0x0A, CHR 0x0A] (replicate 5 (filler 50)))
   \<and> extractPageContent paragraphPage = Inl ReferenceError
   \<and> extractPageContent (paragraphPage\<lparr>global_articleTitle := Some ''News''\<rparr>)
       = Inr (Article ''News'' (filler 250))
   \<and> cleanUp (join [CHR 0x0A, CHR 0x0A] (replicate 5 (filler 50)))
       = join '' '' (replicate 5 (filler 50))
   \<and> filler 250 \<noteq> join '' '' (replicate 5 (filler 50))
   \<and> popup_extractPageContent paragraphPage = Inr (filler 250)"
  by code_simp

text \<open>
  C5. The title boost multiplies the score of an element by 1.5 exactly when the located
  title is not empty and occurs in the text of the element. In the script the title is
  looked for in the copy of the body, where no element is rendered: no title is located,
  no element is scored, and no score is multiplied, on any page (lemma
  \<open>getMainContent_body_text\<close>). On \<open>boostPage\<close> the headline is rendered, the container
  that holds its words has the score 256, the article has the score 300, and one and a
  half times 256 is more than 300: with the boost the container would be chosen, and the
  script returns the text of the body instead. Were an element scored whose text holds the
  title, the multiplication, which assigns to a \<^verbatim>\<open>const\<close>, would raise (lemma
  \<open>boost_raises_when_reached\<close>). The plain extractor has neither title nor score and
  returns the article.
\<close>

theorem boost_failing:
  "document_body boostPage = Some boostBody
   \<and> candidates boostBody = [boostArticle, boostStory]
   \<and> accepted boostArticle \<and> accepted boostStory
   \<and> isVisible boostHeadline \<and> textContent boostHeadline = ''Budget''
   \<and> sublist ''Budget'' (textContent boostStory)
   \<and> \<not> sublist ''Budget'' (textContent boostArticle)
   \<and> score boostArticle = 300 \<and> score boostStory = 256
   \<and> score boostArticle < toDouble (score boostStory * (3 / 2))
   \<and> findTitle (removeNonContent (cloneNode boostBody)) titleSelectors = []
   \<and> scoreSelectors [] (removeNonContent (cloneNode boostBody)) contentSelectors (None, 0)
       = Inr (None, 0)
   \<and> getMainContent boostPage = Inr (filler 300 @ ''Budget'' @ ''Budget'' @ filler 250)
   \<and> getMainContent boostPage \<noteq> Inr (textContent boostStory)
   \<and> extractPageContent boostPage = Inl ReferenceError
   \<and> popup_getMainContent boostPage = Inr (textContent boostArticle)"
  by code_simp

text \<open>
  C6, as amended. The clean-up removes every occurrence of the token Advertisement,
  whatever the case of its letters and wherever it stands: the result is made of the
  cleaned text before the occurrence and the cleaned text behind it. The two parts are put
  together as they are, so white space on both sides of the token is not merged; only the
  ends of the whole result are trimmed.
\<close>

theorem advertisement_removed:
  assumes "matchesAd w" "length w = 13"
  shows "cleanUp (u @ w @ v) =
     trim (removeAds (replaceRuns isSpace '' '' u) @ removeAds (replaceRuns isSpace '' '' v))"
  using assms by (simp add: cleanUp_alt collapse_around removeAds_occurrence)

theorem advertisement_removed_witness:
  "matchesAd ''ADVERTISEMENT'' \<and> length ''ADVERTISEMENT'' = 13
   \<and> cleanUp (''Top   story '' @ ''ADVERTISEMENT'' @ '' goes   on'') = ''Top story  goes on''"
proof -
  have 1: "matchesAd ''ADVERTISEMENT''" by code_simp
  have 2: "length ''ADVERTISEMENT'' = 13" by simp
  have 3: "trim (removeAds (replaceRuns isSpace '' '' ''Top   story '')
                 @ removeAds (replaceRuns isSpace '' '' '' goes   on'')) = ''Top story  goes on''"
    by code_simp
  from advertisement_removed [OF 1 2, of "''Top   story ''" "'' goes   on''"] 1 2 3
  show ?thesis by simp
qed

text \<open>
  C6 as stated does not hold: the white space around a removed token is not collapsed,
  two spaces remain. The clean-up of the plain extractor leaves the token where it is.
\<close>

theorem advertisement_counterexample:
  "cleanUp ''a Advertisement b'' = ''a  b'' \<and> cleanUp ''a Advertisement b'' \<noteq> ''a b''
   \<and> popup_cleanUp ''a Advertisement b'' = ''a Advertisement b''"
  by code_simp

text \<open>
  C7. Extraction never raises and returns one result; a page without any text yields an
  article with empty content. On \<open>emptyPage\<close> the fallback to the body text gives the empty
  string, and then the last statement of \<^verbatim>\<open>extractPageContent\<close> raises a
  \<^verbatim>\<open>ReferenceError\<close>. The plain extractor returns the empty string on this page. On
  \<open>bodylessPage\<close>, a document without body element, both extractors raise a
  \<^verbatim>\<open>TypeError\<close> where they read \<^verbatim>\<open>document.body\<close>.
\<close>

theorem empty_failing:
  "getMainContent emptyPage = Inr []
   \<and> extractPageContent emptyPage = Inl ReferenceError
   \<and> extractPageContent (emptyPage\<lparr>global_articleTitle := Some []\<rparr>)
       = Inr (Article ''Unknown Article'' [])
   \<and> popup_extractPageContent emptyPage = Inr []
   \<and> document_body bodylessPage = None
   \<and> extractPageContent bodylessPage = Inl TypeError
   \<and> popup_extractPageContent bodylessPage = Inl TypeError"
  by code_simp

text \<open>
  C8. The floor of the scoring is 200 characters: an element that the scoring returns is
  a visible match of a content selector with more than 200 characters of text, trimmed or
  not; the outcome of the scoring depends on the visible matches above the floor only; and
  when no visible match has more than 200 characters of trimmed text, the scoring ends
  without an element and \<^verbatim>\<open>getMainContent\<close> goes on with the fallbacks. The last two
  conjuncts say the same of the plain extractor, whose floor is on the untrimmed text.
\<close>

theorem acceptance_floor:
  "(scoreSelectors t b contentSelectors (None, 0) = Inr (Some el, s) \<longrightarrow>
      el \<in> set (candidates b) \<and> isVisible el \<and> 200 < textLength el
      \<and> 200 < length (textContent el))
   \<and> (scoreSelectors t b contentSelectors (None, 0) = Inr st \<longrightarrow>
        st = keepBest score
               (filter (\<lambda>el. isVisible el \<and> 200 < textLength el) (candidates b)) (None, 0))
   \<and> ((\<forall>el\<in>set (candidates b). isVisible el \<longrightarrow> textLength el \<le> 200) \<longrightarrow>
        scoreSelectors t b contentSelectors (None, 0) = Inr (None, 0)
        \<and> mainContent t b = Inr (fallback b))
   \<and> (popup_firstSelector w popup_contentSelectors = Some txt \<longrightarrow>
        (\<exists>sel\<in>set popup_contentSelectors. \<exists>pel\<in>set (document_querySelectorAll w [sel]).
            isVisible pel \<and> 200 < length (textContent pel) \<and> txt = textContent pel))
   \<and> ((\<forall>sel\<in>set popup_contentSelectors. \<forall>pel\<in>set (document_querySelectorAll w [sel]).
          isVisible pel \<longrightarrow> length (textContent pel) \<le> 200) \<longrightarrow>
        popup_firstSelector w popup_contentSelectors = None
        \<and> popup_getMainContent w =
            (if 0 < length (popup_paragraphs w)
             then Inr (join [CHR 0x0A, CHR 0x0A] (map textContent (popup_paragraphs w)))
             else case document_body w of None \<Rightarrow> Inl TypeError | Some bd \<Rightarrow> Inr (textContent bd)))"
proof (intro conjI impI)
  assume a: "scoreSelectors t b contentSelectors (None, 0) = Inr (Some el, s)"
  let ?xs = "filter accepted (candidates b)"
  from a have "scoreElements t (candidates b) (None, 0) = Inr (Some el, s)"
    by (simp add: scoreSelectors_flat candidates_def)
  then have "keepBest score ?xs (None, 0) = (Some el, s)"
    using scoreElements_Inr by fastforce
  from keepBest_cases [OF this] obtain i where "firstBest score ?xs i" "el = ?xs ! i"
    by auto
  then have "i < length ?xs" "el = ?xs ! i" by (simp_all add: firstBest_def)
  then have "el \<in> set ?xs" using nth_mem [of i ?xs] by simp
  then have el: "el \<in> set (candidates b)" "accepted el" by simp_all
  then show "el \<in> set (candidates b)" "isVisible el" "200 < textLength el"
    by (simp_all add: accepted_def)
  then show "200 < length (textContent el)"
    using length_trim_le [of "textContent el"] by (simp add: textLength_def)
next
  assume "scoreSelectors t b contentSelectors (None, 0) = Inr st"
  then have "scoreElements t (candidates b) (None, 0) = Inr st"
    by (simp add: scoreSelectors_flat candidates_def)
  from scoreElements_Inr [OF this]
  show "st = keepBest score
               (filter (\<lambda>el. isVisible el \<and> 200 < textLength el) (candidates b)) (None, 0)"
    by (simp add: accepted_def [abs_def])
next
  assume a: "\<forall>el\<in>set (candidates b). isVisible el \<longrightarrow> textLength el \<le> 200"
  then have n: "filter accepted (candidates b) = []"
    by (auto simp: accepted_def filter_empty_conv)
  have "\<forall>el\<in>set (candidates b). accepted el \<longrightarrow> t = [] \<or> \<not> sublist t (textContent el)"
    using a by (auto simp: accepted_def)
  from scoreElements_quiet [OF this, of "(None, 0)"]
  show s: "scoreSelectors t b contentSelectors (None, 0) = Inr (None, 0)"
    by (simp add: scoreSelectors_flat candidates_def [symmetric] n)
  show "mainContent t b = Inr (fallback b)"
    by (simp add: mainContent_def s)
next
  assume "popup_firstSelector w popup_contentSelectors = Some txt"
  then obtain pel where f:
    "find (\<lambda>el. isVisible el \<and> 200 < length (textContent el))
       (concat (map (\<lambda>sel. document_querySelectorAll w [sel]) popup_contentSelectors)) = Some pel"
    and t: "txt = textContent pel"
    by (auto simp: popup_firstSelector_find)
  from find_in_list [OF f]
  have m: "pel \<in> set (concat (map (\<lambda>sel. document_querySelectorAll w [sel]) popup_contentSelectors))"
    and v: "isVisible pel \<and> 200 < length (textContent pel)"
    by blast+
  from m obtain sel where "sel \<in> set popup_contentSelectors"
    "pel \<in> set (document_querySelectorAll w [sel])"
    by (simp only: set_concat set_map) blast
  with v t show "\<exists>sel\<in>set popup_contentSelectors. \<exists>pel\<in>set (document_querySelectorAll w [sel]).
            isVisible pel \<and> 200 < length (textContent pel) \<and> txt = textContent pel"
    by blast
next
  assume a: "\<forall>sel\<in>set popup_contentSelectors. \<forall>pel\<in>set (document_querySelectorAll w [sel]).
          isVisible pel \<longrightarrow> length (textContent pel) \<le> 200"
  have "find (\<lambda>el. isVisible el \<and> 200 < length (textContent el))
       (concat (map (\<lambda>sel. document_querySelectorAll w [sel]) popup_contentSelectors)) = None"
    unfolding find_None_iff set_concat set_map using a by fastforce
  then show n: "popup_firstSelector w popup_contentSelectors = None"
    by (simp add: popup_firstSelector_find)
  show "popup_getMainContent w =
            (if 0 < length (popup_paragraphs w)
             then Inr (join [CHR 0x0A, CHR 0x0A] (map textContent (popup_paragraphs w)))
             else case document_body w of None \<Rightarrow> Inl TypeError | Some bd \<Rightarrow> Inr (textContent bd))"
    by (simp add: popup_getMainContent_def n)
qed

theorem acceptance_floor_witness:
  "scoreSelectors [] (floorBody 201) contentSelectors (None, 0) = Inr (Some (floorArticle 201), 201)
   \<and> isVisible (floorArticle 201) \<and> 200 < textLength (floorArticle 201)
   \<and> candidates (floorBody 200) = [floorArticle 200]
   \<and> isVisible (floorArticle 200) \<and> textLength (floorArticle 200) = 200
   \<and> scoreSelectors [] (floorBody 200) contentSelectors (None, 0) = Inr (None, 0)
   \<and> mainContent [] (floorBody 200) = Inr (filler 200 @ ''tail'')
   \<and> popup_firstSelector (floorPage 201) popup_contentSelectors = Some (filler 201)
   \<and> popup_firstSelector (floorPage 200) popup_contentSelectors = None
   \<and> popup_getMainContent (floorPage 200) = Inr (filler 200 @ ''tail'')"
proof -
  have 1: "scoreSelectors [] (floorBody 201) contentSelectors (None, 0)
     = Inr (Some (floorArticle 201), 201)"
    by code_simp
  have 2: "candidates (floorBody 200) = [floorArticle 200]"
    by code_simp
  have 3: "isVisible (floorArticle 200)" "textLength (floorArticle 200) = 200"
    by code_simp+
  have 4: "fallback (floorBody 200) = filler 200 @ ''tail''"
    by code_simp
  have 5: "popup_firstSelector (floorPage 201) popup_contentSelectors = Some (filler 201)"
    by code_simp
  have 6: "\<forall>sel\<in>set popup_contentSelectors.
             \<forall>pel\<in>set (document_querySelectorAll (floorPage 200) [sel]).
               isVisible pel \<longrightarrow> length (textContent pel) \<le> 200"
    by code_simp
  have 7: "popup_paragraphs (floorPage 200) = []"
    "document_body (floorPage 200) = Some (floorBody 200)"
    "textContent (floorBody 200) = filler 200 @ ''tail''"
    by code_simp+
  from acceptance_floor [of "[]" "floorBody 201" "floorArticle 201" 201] 1
  have "isVisible (floorArticle 201) \<and> 200 < textLength (floorArticle 201)" by blast
  moreover from acceptance_floor [of "[]" "floorBody 200"] 2 3
  have "scoreSelectors [] (floorBody 200) contentSelectors (None, 0) = Inr (None, 0)
        \<and> mainContent [] (floorBody 200) = Inr (fallback (floorBody 200))" by simp
  moreover from acceptance_floor [where w = "floorPage 200"] 6
  have "popup_firstSelector (floorPage 200) popup_contentSelectors = None
        \<and> popup_getMainContent (floorPage 200) =
            (if 0 < length (popup_paragraphs (floorPage 200))
             then Inr (join [CHR 0x0A, CHR 0x0A] (map textContent (popup_paragraphs (floorPage 200))))
             else case document_body (floorPage 200) of
                    None \<Rightarrow> Inl TypeError | Some bd \<Rightarrow> Inr (textContent bd))"
    by blast
  ultimately show ?thesis using 1 2 3 4 5 7 by simp
qed

text \<open>
  C9, as amended. The clean-up is idempotent on every string in which the removal of
  the token Advertisement finds nothing to remove.
\<close>

theorem cleanUp_idempotent_without_ads:
  assumes "removeAds (replaceRuns isSpace '' '' s) = replaceRuns isSpace '' '' s"
  shows "cleanUp (cleanUp s) = cleanUp s"
proof -
  let ?c = "replaceRuns isSpace '' '' s"
  have t: "cleanUp s = trim ?c" by (simp add: cleanUp_alt assms)
  have "singleSpaced (trim ?c)" by (intro singleSpaced_trim singleSpaced_collapse)
  then have 1: "replaceRuns isSpace '' '' (trim ?c) = trim ?c" by (rule collapse_singleSpaced)
  have 2: "removeAds (trim ?c) = trim ?c" using assms by (rule removeAds_id_trim)
  show ?thesis by (simp add: t cleanUp_alt [of "trim ?c"] 1 2 trim_trim)
qed

theorem cleanUp_idempotent_without_ads_witness:
  "removeAds (replaceRuns isSpace '' '' ''  two   words '') = replaceRuns isSpace '' '' ''  two   words ''
   \<and> cleanUp ''  two   words '' = ''two words''
   \<and> cleanUp (cleanUp ''  two   words '') = cleanUp ''  two   words ''"
proof -
  have 1: "removeAds (replaceRuns isSpace '' '' ''  two   words '') = replaceRuns isSpace '' '' ''  two   words ''"
    by code_simp
  have 2: "cleanUp ''  two   words '' = ''two words''"
    by code_simp
  from cleanUp_idempotent_without_ads [OF 1] 1 2 show ?thesis by simp
qed

text \<open>
  C9 as stated does not hold: cleaning a second time merges the two spaces that the
  removal of a token left behind.
\<close>

theorem cleanUp_not_idempotent:
  "cleanUp ''news ADVERTISEMENT today'' = ''news  today''
   \<and> cleanUp (cleanUp ''news ADVERTISEMENT today'') = ''news today''
   \<and> cleanUp (cleanUp ''news ADVERTISEMENT today'') \<noteq> cleanUp ''news ADVERTISEMENT today''"
  by code_simp

text \<open>
  C10. The string returned by the plain \<^verbatim>\<open>extractPageContent\<close> of the popup and content
  scripts holds no line feed, tab or carriage return, its only white space is the single
  space, never two in a row, and none at its ends. The function returns such a string
  whenever the document has a body.
\<close>

theorem popup_output_clean:
  "(document_body w \<noteq> None \<longrightarrow> (\<exists>s. popup_extractPageContent w = Inr s))
   \<and> (\<forall>s. popup_extractPageContent w = Inr s \<longrightarrow>
         CHR 0x0A \<notin> set s \<and> CHR 0x09 \<notin> set s \<and> CHR 0x0D \<notin> set s
         \<and> (\<forall>c\<in>set s. isSpace c \<longrightarrow> c = CHR '' '')
         \<and> (\<forall>i. Suc i < length s \<longrightarrow> \<not> (isSpace (s ! i) \<and> isSpace (s ! Suc i)))
         \<and> (s \<noteq> [] \<longrightarrow> \<not> isSpace (hd s) \<and> \<not> isSpace (last s)))"
proof (intro conjI allI impI)
  assume "document_body w \<noteq> None"
  then show "\<exists>s. popup_extractPageContent w = Inr s"
    by (auto simp: popup_extractPageContent_def popup_getMainContent_def split: option.splits)
next
  fix s assume "popup_extractPageContent w = Inr s"
  then obtain content where s: "s = popup_cleanUp content"
    by (auto simp: popup_extractPageContent_def split: sum.splits)
  have sp: "singleSpaced s"
    unfolding s popup_cleanUp_alt by (intro singleSpaced_trim singleSpaced_collapse)
  show only: "\<forall>c\<in>set s. isSpace c \<longrightarrow> c = CHR '' ''"
    using singleSpaced_only_space [OF sp] by blast
  have "isSpace (CHR 0x0A)" "isSpace (CHR 0x09)" "isSpace (CHR 0x0D)"
    by (simp_all add: isSpace_def)
  with only show "CHR 0x0A \<notin> set s" "CHR 0x09 \<notin> set s" "CHR 0x0D \<notin> set s"
    by auto
  show "\<not> isSpace (hd s)" "\<not> isSpace (last s)" if "s \<noteq> []"
    using that trim_ends [of "replaceRuns isSpace '' '' content"]
    unfolding s popup_cleanUp_alt by simp_all
  show "\<not> (isSpace (s ! i) \<and> isSpace (s ! Suc i))" if "Suc i < length s" for i
    using singleSpaced_no_pair [OF sp that] by blast
qed

theorem popup_output_clean_witness:
  "document_body popupPage \<noteq> None
   \<and> popup_extractPageContent popupPage = Inr (''One '' @ filler 50 @ '' two '' @ filler 50)
   \<and> CHR 0x0A \<notin> set (''One '' @ filler 50 @ '' two '' @ filler 50)
   \<and> \<not> isSpace (hd (''One '' @ filler 50 @ '' two '' @ filler 50))
   \<and> \<not> isSpace (last (''One '' @ filler 50 @ '' two '' @ filler 50))"
proof -
  have 1: "document_body popupPage \<noteq> None"
    by code_simp
  have 2: "popup_extractPageContent popupPage = Inr (''One '' @ filler 50 @ '' two '' @ filler 50)"
    by code_simp
  have 3: "''One '' @ filler 50 @ '' two '' @ filler 50 \<noteq> []"
    by simp
  from popup_output_clean [of popupPage] 1 2 3 show ?thesis by simp
qed

end
